theory Spec2Isabelle
  imports Complex_Main "HOL-Library.Word"
begin

section \<open>WSG-50 gripper driver: the service layer of main.cpp\<close>

text \<open>
  The node keeps its state in global variables and reaches the gripper through the helper
  functions declared in wsg50/functions.h and wsg50/cmd.h. The globals become the fields
  of a record that every operation takes and returns. Everything the node does to the
  outside (a command handed to the transport, a log line, a published message, a sleep,
  an assignment to the busy guard) is appended to a trace in program order.
\<close>

subsection \<open>Floats\<close>

text \<open>
  Widths, speeds, increments and goal values are float32 in the source. A value is a
  number, an infinity or NaN. \<open>fl_less\<close> and \<open>fl_le\<close> are the C comparisons
  \<^verbatim>\<open><\<close> and \<^verbatim>\<open><=\<close>: every comparison with NaN is false. The source writes
  \<^verbatim>\<open>a > b\<close> and \<^verbatim>\<open>a >= b\<close> too, which are \<open>fl_less b a\<close> and \<open>fl_le b a\<close>.
  The double constants 0.0 and 420.0 and the int constants 1 and 20 are exact as float32.
  \<open>Fin r\<close> is the finite value \<open>r\<close>; the model does not confine \<open>r\<close> to the
  float32 values, so what holds for every \<open>r\<close> holds for them.
\<close>

datatype fl = Fin real | PInf | NInf | NaN

fun fl_less :: "fl \<Rightarrow> fl \<Rightarrow> bool" where
  "fl_less (Fin a) (Fin b) = (a < b)"
| "fl_less (Fin a) PInf = True"
| "fl_less NInf (Fin b) = True"
| "fl_less NInf PInf = True"
| "fl_less _ _ = False"

fun fl_le :: "fl \<Rightarrow> fl \<Rightarrow> bool" where
  "fl_le (Fin a) (Fin b) = (a \<le> b)"
| "fl_le (Fin a) PInf = True"
| "fl_le NInf (Fin b) = True"
| "fl_le NInf PInf = True"
| "fl_le NInf NInf = True"
| "fl_le PInf PInf = True"
| "fl_le _ _ = False"

fun is_nan :: "fl \<Rightarrow> bool" where
  "is_nan NaN = True"
| "is_nan _ = False"

text \<open>
  The float32 addition and subtraction of lines 281 and 287 round their results, and the
  int g_size is converted to float32 wherever it meets a float. These three operations
  of the machine are parameters of the model: nothing is assumed about them.
\<close>

record fpu =
  f_add :: "fl \<Rightarrow> fl \<Rightarrow> fl"
  f_sub :: "fl \<Rightarrow> fl \<Rightarrow> fl"
  f_int :: "int \<Rightarrow> fl"

subsection \<open>Data\<close>

type_synonym byte = "8 word"

text \<open>
  status_t is declared in wsg50/common.h. main.cpp names the enumerators below; every
  other enumerator is \<open>E_OTHER n\<close>. The source compares \<open>res.error == 0\<close> for success,
  which is \<open>E_SUCCESS\<close>.
\<close>

datatype status =
    E_SUCCESS
  | E_CMD_PENDING
  | E_ALREADY_RUNNING
  | E_RANGE_ERROR
  | E_AXIS_BLOCKED
  | E_CMD_ABORTED
  | E_OTHER nat

text \<open>The \<open>error\<close> field of a service response: a status, or the literal 255.\<close>

datatype err = Status status | Code_255

text \<open>The commands the node hands to the transport through the helper functions.\<close>

datatype command =
    Move_cmd fl fl bool          \<comment> \<open>move_async(width, speed, flag)\<close>
  | Grasp_cmd fl fl              \<comment> \<open>grasp_async(width, speed)\<close>
  | Release_cmd fl fl            \<comment> \<open>release_async(width, speed)\<close>
  | Homing_cmd                   \<comment> \<open>homing_async()\<close>
  | Stop_cmd "bool option"       \<comment> \<open>stop(flag); None is the call stop() with the default argument\<close>
  | Opening_query                \<comment> \<open>getOpening()\<close>
  | State_query                  \<comment> \<open>systemState()\<close>
  | Acceleration_query           \<comment> \<open>getAcceleration()\<close>
  | Force_query                  \<comment> \<open>getForce()\<close>
  | Ack_fault_cmd                \<comment> \<open>ack_fault()\<close>
  | Acceleration_cmd fl          \<comment> \<open>setAcceleration(val)\<close>
  | Force_limit_cmd fl           \<comment> \<open>setGraspingForceLimit(val)\<close>
  | Script_cmd nat fl fl         \<comment> \<open>script_measure_move(cmd_type, pos, speed, info)\<close>
  | Move_wait_cmd fl fl bool bool  \<comment> \<open>move(width, speed, flag, flag)\<close>

datatype log_msg =
    W_busy            \<comment> \<open>Another Motion Control service is already running\<close>
  | E_range           \<comment> \<open>Imposible to move to this position\<close>
  | W_speed           \<comment> \<open>Speed values are outside the gripper's physical limits\<close>
  | I_pending         \<comment> \<open>the line printed on E_CMD_PENDING\<close>
  | I_done            \<comment> \<open>Target position reached, Object grasped correctly, ...\<close>
  | E_failed          \<comment> \<open>Failed while moving, Failed to reach home position, ...\<close>
  | W_stop            \<comment> \<open>Stop!\<close>
  | W_waiting         \<comment> \<open>Waiting for the last motion control command\<close>
  | W_stopped         \<comment> \<open>Stopped.\<close>
  | W_size int        \<comment> \<open>Gripper size: n is invalid. Using default size of 210 mm.\<close>
  | I_position_cmd    \<comment> \<open>Position command: pos=..., speed=...\<close>
  | I_velocity_cmd    \<comment> \<open>Velocity command: speed=...\<close>
  | E_script_failed   \<comment> \<open>Measure-and-move command failed\<close>
  | E_move_failed     \<comment> \<open>Failed to send MOVE command\<close>

datatype event =
    Sent command
  | Log log_msg
  | Sleep_settle                 \<comment> \<open>ros::Duration(0.1).sleep()\<close>
  | Guard bool                   \<comment> \<open>an assignment to in_motion\<close>
  | Quit                         \<comment> \<open>quit(...)\<close>
  | Reply bool "err option"      \<comment> \<open>the response of a service run from ros::spinOnce()\<close>
  | Pub_moving bool              \<comment> \<open>g_pub_moving.publish\<close>
  | Pub_status                   \<comment> \<open>g_pub_state.publish; the contents are left out\<close>
  | Pub_joint                    \<comment> \<open>g_pub_joint.publish; the contents are left out\<close>

text \<open>One call of recv_ack yields 0 (no message), 1 with a status, or -1 (error).\<close>

datatype poll = NoMsg | Msg status | Fail

text \<open>
  The globals of lines 86-98, the answers that the gripper will give (\<open>acks\<close>, see
  recv_ack below) and the trace. \<open>g_ismoving_flag\<close> is g_ismoving.
\<close>

record world =
  in_motion :: bool
  stop_called :: bool
  last_cmd_id :: byte
  objectGraspped :: bool
  g_size :: int
  g_mode_script :: bool
  g_mode_periodic :: bool
  g_mode_polling :: bool
  g_goal_position :: fl
  g_goal_speed :: fl
  g_speed :: fl
  g_ismoving_flag :: bool
  acks :: "byte \<Rightarrow> poll list"
  trace :: "event list"

definition emit :: "event \<Rightarrow> world \<Rightarrow> world" where
  "emit e w = w\<lparr>trace := trace w @ [e]\<rparr>"

definition set_in_motion :: "bool \<Rightarrow> world \<Rightarrow> world" where
  "set_in_motion b w = emit (Guard b) (w\<lparr>in_motion := b\<rparr>)"

subsection \<open>Startup (main, lines 750-751 and 771-786)\<close>

text \<open>
  The globals as their initialisers and the first lines of main leave them. last_cmd_id
  and objectGraspped have no initialiser; as globals they start at zero.
\<close>

definition initial :: "(byte \<Rightarrow> poll list) \<Rightarrow> world" where
  "initial link =
     \<lparr>in_motion = False, stop_called = False, last_cmd_id = 0, objectGraspped = False,
      g_size = 0, g_mode_script = False, g_mode_periodic = False, g_mode_polling = False,
      g_goal_position = NaN, g_goal_speed = NaN, g_speed = Fin 10, g_ismoving_flag = False,
      acks = link, trace = []\<rparr>"

definition configure_size :: "int \<Rightarrow> world \<Rightarrow> world" where
  "configure_size sz w =
     (if sz \<noteq> 210 \<and> sz \<noteq> 110
      then (emit (Log (W_size sz)) w)\<lparr>g_size := 210\<rparr>
      else w\<lparr>g_size := sz\<rparr>)"

text \<open>Lines 779-786: the communication mode.\<close>

definition configure_mode :: "string \<Rightarrow> world \<Rightarrow> world" where
  "configure_mode com_mode w =
     (if com_mode = ''script'' then w\<lparr>g_mode_script := True\<rparr>
      else if com_mode = ''auto_update'' then w\<lparr>g_mode_periodic := True\<rparr>
      else w\<lparr>g_mode_polling := True\<rparr>)"

subsection \<open>Requests, callbacks and the scheduler's inputs\<close>

record request =
  width :: fl
  speed :: fl

record incr_request =
  direction :: string
  increment :: fl

text \<open>
  What timer_cb gets from its helpers: whether systemState() gave a null pointer, whether
  script_measure_move gave 0, and the value of info.ismoving that it left.
\<close>

record timer_in =
  state_null :: bool
  script_failed :: bool
  script_moving :: bool

text \<open>
  The callbacks that main.cpp registers (lines 815-832 and 864) and that ros::spinOnce()
  can run while a service waits: the stop service, further attempts at the motion
  services, the services ack, set_acceleration and set_force, the subscribers
  goal_position and goal_speed, and the timer. A callback carries its request and what
  its helper calls return (the code of the *_async or move call, the value of
  getOpening(), the results of the timer's helpers).
\<close>

datatype callback =
    Cb_stop
  | Cb_move int request
  | Cb_grasp int request
  | Cb_release int request
  | Cb_incr int fl incr_request
  | Cb_homing int
  | Cb_ack
  | Cb_set_acc fl
  | Cb_set_force fl
  | Cb_position fl fl int        \<comment> \<open>msg->speed, msg->pos, what move returns\<close>
  | Cb_speed fl
  | Cb_timer timer_in

text \<open>
  One pass through a wait loop: the callbacks that this pass's ros::spinOnce() runs and
  the reading of ros::Time::now() at this pass's deadline test, in seconds.
\<close>

record tick =
  calls :: "callback list"
  now :: real

definition timeout_commands :: real where
  "timeout_commands = 30"

text \<open>
  Modelled from the spec: quit, whose body is not in main.cpp, is the fatal end of the
  whole process; nothing of the service runs after it, and the service does not return.
\<close>

datatype loop_result =
    Terminal status      \<comment> \<open>recv_ack gave 1 with a status other than E_CMD_PENDING\<close>
  | Recv_error           \<comment> \<open>recv_ack gave -1\<close>
  | Stopped              \<comment> \<open>stop_called was seen\<close>
  | Timed_out            \<comment> \<open>quit was called\<close>
  | Still_waiting        \<comment> \<open>the loop is still running when the given passes end\<close>

datatype outcome =
    Returned bool "err option"   \<comment> \<open>the service's return value and res.error (None: never assigned)\<close>
  | Process_quit
  | No_return

subsection \<open>The helpers of wsg50/functions.h\<close>

text \<open>
  Modelled from the spec: recv_ack, whose body is not in main.cpp. The source documents its
  result as "0 when no msg available, 1 when msg is available and correct, -1 on error",
  and the spec has a caller see only frames whose id equals the id it waits for. So the
  link holds, for each command id, the results that the calls of recv_ack for this id will
  give, in order; a call takes the first. When nothing is left no message ever arrives
  and every call gives 0.
\<close>

definition recv_ack :: "byte \<Rightarrow> world \<Rightarrow> poll \<times> world" where
  "recv_ack cid w =
     (case acks w cid of
        [] \<Rightarrow> (NoMsg, w)
      | p # ps \<Rightarrow> (p, w\<lparr>acks := (acks w)(cid := ps)\<rparr>))"

text \<open>
  Modelled from the spec: move_async, grasp_async, release_async, homing_async, stop,
  move, getOpening, getAcceleration, getForce, systemState, ack_fault, setAcceleration,
  setGraspingForceLimit and script_measure_move, whose bodies are not in main.cpp. Each
  hands one command to the transport; the call is recorded in the trace, and what the
  call returns is an input of the callback that makes it. None of them takes a result
  that a call of recv_ack would give: the answers to a motion command are read by the
  loops of main.cpp.
\<close>

definition transmit :: "command \<Rightarrow> world \<Rightarrow> world" where
  "transmit c w = emit (Sent c) w"

subsection \<open>stopSrv (lines 442-460)\<close>

text \<open>
  The loop \<^verbatim>\<open>while (recv_ack(last_cmd_id, &status) == 0);\<close> on the results that the
  link holds for last_cmd_id: it gives what is left after the first result other than 0,
  and None when there is no such result (the loop never ends).
\<close>

fun drain :: "poll list \<Rightarrow> poll list option" where
  "drain [] = None"
| "drain (NoMsg # ps) = drain ps"
| "drain (p # ps) = Some ps"

text \<open>The first component is False when stopSrv never returns.\<close>

definition stopSrv :: "world \<Rightarrow> bool \<times> world" where
  "stopSrv w =
     (let w1 = emit (Log W_stop) w in
      if in_motion w1 then
        (let w2 = transmit (Stop_cmd (Some (last_cmd_id w1 = 0x20))) w1;
             w3 = emit (Log W_waiting) w2
         in case drain (acks w3 (last_cmd_id w3)) of
              None \<Rightarrow> (False, w3\<lparr>acks := (acks w3)(last_cmd_id w3 := [])\<rparr>)
            | Some rest \<Rightarrow>
                (True, emit (Log W_stopped)
                   (w3\<lparr>acks := (acks w3)(last_cmd_id w3 := rest), stop_called := True\<rparr>)))
      else (True, emit (Log W_stopped) (transmit (Stop_cmd None) w1)))"

subsection \<open>The wait loops\<close>

text \<open>
  The do-while loop of moveSrv (lines 170-190), the same in graspSrv, releaseSrv and
  incrementSrv but for the command id. \<open>spin\<close> is ros::spinOnce(); its first result is
  False when a callback never returns.
\<close>

fun await_ack ::
  "(callback list \<Rightarrow> world \<Rightarrow> bool \<times> world) \<Rightarrow> byte \<Rightarrow> real \<Rightarrow> tick list \<Rightarrow> world
     \<Rightarrow> loop_result \<times> world" where
  "await_ack spin cid bgn [] w = (Still_waiting, w)"
| "await_ack spin cid bgn (t # ts) w =
     (case recv_ack cid w of (p, w1) \<Rightarrow>
        (let w2 = (if p = Msg E_CMD_PENDING then emit (Log I_pending) w1 else w1) in
         case spin (calls t) w2 of (returned, w3) \<Rightarrow>
           if \<not> returned then (Still_waiting, w3)
           else if stop_called w3
             then (Stopped, set_in_motion False (w3\<lparr>stop_called := False\<rparr>))
           else if now t - bgn > timeout_commands then (Timed_out, emit Quit w3)
           else (case p of
                   NoMsg \<Rightarrow> await_ack spin cid bgn ts w3
                 | Msg s \<Rightarrow> if s = E_CMD_PENDING then await_ack spin cid bgn ts w3
                            else (Terminal s, w3)
                 | Fail \<Rightarrow> (Recv_error, w3))))"

text \<open>
  The loop of homingSrv (lines 414-423): no ros::spinOnce() and no test of stop_called,
  so the callbacks of a pass are not run.
\<close>

fun await_home :: "real \<Rightarrow> tick list \<Rightarrow> world \<Rightarrow> loop_result \<times> world" where
  "await_home bgn [] w = (Still_waiting, w)"
| "await_home bgn (t # ts) w =
     (case recv_ack 0x20 w of (p, w1) \<Rightarrow>
        (let w2 = (if p = Msg E_CMD_PENDING then emit (Log I_pending) w1 else w1) in
         if now t - bgn > timeout_commands then (Timed_out, emit Quit w2)
         else (case p of
                 NoMsg \<Rightarrow> await_home bgn ts w2
               | Msg s \<Rightarrow> if s = E_CMD_PENDING then await_home bgn ts w2
                          else (Terminal s, w2)
               | Fail \<Rightarrow> (Recv_error, w2))))"

subsection \<open>The motion services\<close>

text \<open>Lines 192-194: the sleep of 0.1 s, then in_motion = false.\<close>

definition settle :: "world \<Rightarrow> world" where
  "settle w = set_in_motion False (emit Sleep_settle w)"

text \<open>
  What follows the loop in moveSrv, graspSrv, releaseSrv and incrementSrv (lines 176-181
  and 192-201); \<open>on_ok\<close> is what the service does besides logging when res.error is 0.
\<close>

fun finish_motion :: "(world \<Rightarrow> world) \<Rightarrow> loop_result \<times> world \<Rightarrow> outcome \<times> world" where
  "finish_motion on_ok (Terminal s, w) =
     (Returned True (Some (Status s)),
      (if s = E_SUCCESS then on_ok (emit (Log I_done) (settle w))
       else emit (Log E_failed) (settle w)))"
| "finish_motion on_ok (Recv_error, w) =
     (Returned True (Some Code_255), emit (Log E_failed) (settle w))"
| "finish_motion on_ok (Stopped, w) = (Returned True (Some (Status E_CMD_ABORTED)), w)"
| "finish_motion on_ok (Timed_out, w) = (Process_quit, w)"
| "finish_motion on_ok (Still_waiting, w) = (No_return, w)"

text \<open>Lines 163-164: in_motion = true; last_cmd_id = id.\<close>

definition issued :: "byte \<Rightarrow> world \<Rightarrow> world" where
  "issued cid w = (set_in_motion True w)\<lparr>last_cmd_id := cid\<rparr>"

text \<open>
  The range test \<^verbatim>\<open>req.width < 0.0 || req.width > g_size\<close> of lines 151, 216 and 348 and
  the speed test \<^verbatim>\<open>req.speed < 0.0 || req.speed > 420.0\<close> of lines 157, 222 and 354.
\<close>

definition out_of_range :: "fpu \<Rightarrow> int \<Rightarrow> fl \<Rightarrow> bool" where
  "out_of_range ar gsize x = (fl_less x (Fin 0) \<or> fl_less (f_int ar gsize) x)"

definition speed_flagged :: "fl \<Rightarrow> bool" where
  "speed_flagged x = (fl_less x (Fin 0) \<or> fl_less (Fin 420) x)"

text \<open>
  moveSrv (lines 143-207). \<open>ar\<close> is the arithmetic of the machine, \<open>rc\<close> is what
  move_async returns, \<open>bgn\<close> the reading of ros::Time::now() at line 169, \<open>tks\<close> the
  passes of the loop.
\<close>

definition moveSrv_with ::
  "(callback list \<Rightarrow> world \<Rightarrow> bool \<times> world) \<Rightarrow> fpu \<Rightarrow> int \<Rightarrow> real \<Rightarrow> tick list \<Rightarrow> request
     \<Rightarrow> world \<Rightarrow> outcome \<times> world" where
  "moveSrv_with spin ar rc bgn tks req w =
     (if in_motion w
        then (Returned True (Some (Status E_ALREADY_RUNNING)), emit (Log W_busy) w)
      else if out_of_range ar (g_size w) (width req)
        then (Returned False (Some (Status E_RANGE_ERROR)), emit (Log E_range) w)
      else
        (let w1 = (if speed_flagged (speed req) then emit (Log W_speed) w else w);
             w2 = transmit (Move_cmd (width req) (speed req) False) w1
         in if rc = 0
              then finish_motion (\<lambda>w. w) (await_ack spin 0x21 bgn tks (issued 0x21 w2))
            else (Returned True (Some Code_255), w2)))"

text \<open>graspSrv (lines 209-269).\<close>

definition graspSrv_with ::
  "(callback list \<Rightarrow> world \<Rightarrow> bool \<times> world) \<Rightarrow> fpu \<Rightarrow> int \<Rightarrow> real \<Rightarrow> tick list \<Rightarrow> request
     \<Rightarrow> world \<Rightarrow> outcome \<times> world" where
  "graspSrv_with spin ar rc bgn tks req w =
     (if in_motion w
        then (Returned True (Some (Status E_ALREADY_RUNNING)), emit (Log W_busy) w)
      else if out_of_range ar (g_size w) (width req)
        then (Returned False (Some (Status E_RANGE_ERROR)), emit (Log E_range) w)
      else
        (let w1 = (if speed_flagged (speed req) then emit (Log W_speed) w else w);
             w2 = transmit (Grasp_cmd (width req) (speed req)) w1
         in if rc = 0
              then finish_motion (\<lambda>w. w\<lparr>objectGraspped := True\<rparr>)
                     (await_ack spin 0x25 bgn tks (issued 0x25 w2))
            else (Returned True (Some Code_255), w2)))"

text \<open>releaseSrv (lines 341-399).\<close>

definition releaseSrv_with ::
  "(callback list \<Rightarrow> world \<Rightarrow> bool \<times> world) \<Rightarrow> fpu \<Rightarrow> int \<Rightarrow> real \<Rightarrow> tick list \<Rightarrow> request
     \<Rightarrow> world \<Rightarrow> outcome \<times> world" where
  "releaseSrv_with spin ar rc bgn tks req w =
     (if in_motion w
        then (Returned True (Some (Status E_ALREADY_RUNNING)), emit (Log W_busy) w)
      else if out_of_range ar (g_size w) (width req)
        then (Returned False (Some (Status E_RANGE_ERROR)), emit (Log E_range) w)
      else
        (let w1 = (if speed_flagged (speed req) then emit (Log W_speed) w else w);
             w2 = transmit (Release_cmd (width req) (speed req)) w1
         in if rc = 0
              then finish_motion (\<lambda>w. w\<lparr>objectGraspped := False\<rparr>)
                     (await_ack spin 0x26 bgn tks (issued 0x26 w2))
            else (Returned True (Some Code_255), w2)))"

text \<open>
  incrementSrv (lines 271-339). GRIPPER_MIN_OPEN is 0.0. \<open>cur\<close> is what getOpening()
  returns. The pair is the width and the speed given to move_async. The sum and the
  difference are those of the machine; \<^verbatim>\<open>nextWidth >= g_size\<close> compares with g_size
  converted to float32, and the same converted value is assigned.
\<close>

definition next_target :: "fpu \<Rightarrow> int \<Rightarrow> fl \<Rightarrow> incr_request \<Rightarrow> (fl \<times> fl) option" where
  "next_target ar gsize cur req =
     (if direction req = ''open'' then
        (let nextWidth = f_add ar cur (increment req);
             nextWidth = (if fl_le (f_int ar gsize) nextWidth then f_int ar gsize else nextWidth)
         in Some (nextWidth, if fl_le (f_int ar gsize) nextWidth then Fin 1 else Fin 20))
      else if direction req = ''close'' then
        (let nextWidth = f_sub ar cur (increment req);
             nextWidth = (if fl_le nextWidth (Fin 0) then Fin 0 else nextWidth)
         in Some (nextWidth, if fl_le nextWidth (Fin 0) then Fin 1 else Fin 20))
      else None)"

definition incrementSrv_with ::
  "(callback list \<Rightarrow> world \<Rightarrow> bool \<times> world) \<Rightarrow> fpu \<Rightarrow> int \<Rightarrow> fl \<Rightarrow> real \<Rightarrow> tick list
     \<Rightarrow> incr_request \<Rightarrow> world \<Rightarrow> outcome \<times> world" where
  "incrementSrv_with spin ar rc cur bgn tks req w =
     (if in_motion w
        then (Returned True (Some (Status E_ALREADY_RUNNING)), emit (Log W_busy) w)
      else
        (case next_target ar (g_size w) cur req of
           None \<Rightarrow> (Returned True None, w)
         | Some (nextWidth, spd) \<Rightarrow>
             (let w1 = transmit Opening_query w;
                  w2 = transmit (Move_cmd nextWidth spd True) w1
              in if rc = 0
                   then finish_motion (\<lambda>w. w) (await_ack spin 0x21 bgn tks (issued 0x21 w2))
                 else (Returned True (Some Code_255), w2))))"

text \<open>
  homingSrv (lines 401-440). Its response type is empty: there is no error field, and the
  service reports by its return value alone. Its loop never sees stop_called.
\<close>

definition homingSrv :: "int \<Rightarrow> real \<Rightarrow> tick list \<Rightarrow> world \<Rightarrow> outcome \<times> world" where
  "homingSrv rc bgn tks w =
     (if in_motion w then (Returned False None, emit (Log W_busy) w)
      else
        (let w1 = transmit Homing_cmd w in
         if rc = 0 then
           (case await_home bgn tks (issued 0x20 w1) of
              (Terminal s, w2) \<Rightarrow>
                (if s = E_SUCCESS then (Returned True None, emit (Log I_done) (settle w2))
                 else (Returned False None, emit (Log E_failed) (settle w2)))
            | (Recv_error, w2) \<Rightarrow> (Returned False None, settle w2)
            | (Timed_out, w2) \<Rightarrow> (Process_quit, w2)
            | (_, w2) \<Rightarrow> (No_return, w2))
         else (Returned True None, w1)))"

subsection \<open>The other callbacks\<close>

text \<open>
  ackSrv, setAccSrv and setForceSrv (lines 486-502): one helper call each, no test of
  in_motion, return value true.
\<close>

definition ackSrv :: "world \<Rightarrow> world" where
  "ackSrv w = transmit Ack_fault_cmd w"

definition setAccSrv :: "fl \<Rightarrow> world \<Rightarrow> world" where
  "setAccSrv v w = transmit (Acceleration_cmd v) w"

definition setForceSrv :: "fl \<Rightarrow> world \<Rightarrow> world" where
  "setForceSrv v w = transmit (Force_limit_cmd v) w"

text \<open>
  position_cb (lines 505-519); \<open>rc\<close> is what move returns. speed_cb (lines 522-527).
\<close>

definition position_cb :: "fl \<Rightarrow> fl \<Rightarrow> int \<Rightarrow> world \<Rightarrow> world" where
  "position_cb spd pos rc w =
     (let w1 = w\<lparr>g_speed := spd, g_goal_position := pos\<rparr> in
      if g_mode_periodic w1 then
        (let w2 = transmit (Move_wait_cmd (g_goal_position w1) (g_speed w1) False True)
                    (transmit (Stop_cmd (Some True)) w1)
         in if rc \<noteq> 0 then emit (Log E_move_failed) w2 else w2)
      else w1)"

definition speed_cb :: "fl \<Rightarrow> world \<Rightarrow> world" where
  "speed_cb v w = w\<lparr>g_goal_speed := v, g_speed := v\<rparr>"

text \<open>Lines 114-141: one message on g_pub_state, then one on g_pub_joint.\<close>

definition publish_state :: "world \<Rightarrow> world" where
  "publish_state w = emit Pub_joint (emit Pub_status w)"

text \<open>
  timer_cb (lines 530-580). In the polling mode it asks the gripper only while no motion
  service is running. In the script mode it sends the measure-and-move command, with the
  goal position if there is one, else with the goal speed if there is one; both goals are
  NaN afterwards.
\<close>

definition timer_cb :: "timer_in \<Rightarrow> world \<Rightarrow> world" where
  "timer_cb i w =
     (if g_mode_polling w \<and> \<not> in_motion w then
        (let w1 = transmit State_query w in
         if state_null i then w1
         else publish_state
                (transmit Force_query (transmit Acceleration_query (transmit Opening_query w1))))
      else if g_mode_script w then
        (let w1 = (if \<not> is_nan (g_goal_position w)
                   then transmit (Script_cmd 1 (g_goal_position w) (g_speed w))
                          (emit (Log I_position_cmd) w)
                   else if \<not> is_nan (g_goal_speed w)
                   then transmit (Script_cmd 2 (Fin 0) (g_goal_speed w))
                          (emit (Log I_velocity_cmd) w)
                   else transmit (Script_cmd 0 (Fin 0) (Fin 0)) w);
             w2 = w1\<lparr>g_goal_position := NaN, g_goal_speed := NaN\<rparr>
         in if script_failed i then emit (Log E_script_failed) w2
            else
              (let w3 = (if g_ismoving_flag w2 \<noteq> script_moving i
                         then (emit (Pub_moving (script_moving i)) w2)
                                \<lparr>g_ismoving_flag := script_moving i\<rparr>
                         else w2)
               in publish_state w3))
      else w)"

subsection \<open>ros::spinOnce() inside a wait loop\<close>

text \<open>
  A service run from inside a wait loop is not given passes of its own: it would have to
  return before the outer loop goes on, and \<open>reply\<close> gives False if it does not.
\<close>

definition no_spin :: "callback list \<Rightarrow> world \<Rightarrow> bool \<times> world" where
  "no_spin cbs w = (True, w)"

fun reply :: "outcome \<times> world \<Rightarrow> bool \<times> world" where
  "reply (Returned b e, w) = (True, emit (Reply b e) w)"
| "reply (Process_quit, w) = (False, w)"
| "reply (No_return, w) = (False, w)"

fun dispatch :: "fpu \<Rightarrow> callback \<Rightarrow> world \<Rightarrow> bool \<times> world" where
  "dispatch ar Cb_stop w =
     (case stopSrv w of (r, w') \<Rightarrow> if r then (True, emit (Reply True None) w') else (False, w'))"
| "dispatch ar (Cb_move rc req) w = reply (moveSrv_with no_spin ar rc 0 [] req w)"
| "dispatch ar (Cb_grasp rc req) w = reply (graspSrv_with no_spin ar rc 0 [] req w)"
| "dispatch ar (Cb_release rc req) w = reply (releaseSrv_with no_spin ar rc 0 [] req w)"
| "dispatch ar (Cb_incr rc cur req) w = reply (incrementSrv_with no_spin ar rc cur 0 [] req w)"
| "dispatch ar (Cb_homing rc) w = reply (homingSrv rc 0 [] w)"
| "dispatch ar Cb_ack w = (True, emit (Reply True None) (ackSrv w))"
| "dispatch ar (Cb_set_acc v) w = (True, emit (Reply True None) (setAccSrv v w))"
| "dispatch ar (Cb_set_force v) w = (True, emit (Reply True None) (setForceSrv v w))"
| "dispatch ar (Cb_position spd pos rc) w = (True, position_cb spd pos rc w)"
| "dispatch ar (Cb_speed v) w = (True, speed_cb v w)"
| "dispatch ar (Cb_timer i) w = (True, timer_cb i w)"

fun spinOnce :: "fpu \<Rightarrow> callback list \<Rightarrow> world \<Rightarrow> bool \<times> world" where
  "spinOnce ar [] w = (True, w)"
| "spinOnce ar (c # cs) w =
     (case dispatch ar c w of (r, w') \<Rightarrow> if r then spinOnce ar cs w' else (False, w'))"

definition moveSrv ::
  "fpu \<Rightarrow> int \<Rightarrow> real \<Rightarrow> tick list \<Rightarrow> request \<Rightarrow> world \<Rightarrow> outcome \<times> world" where
  "moveSrv ar = moveSrv_with (spinOnce ar) ar"

definition graspSrv ::
  "fpu \<Rightarrow> int \<Rightarrow> real \<Rightarrow> tick list \<Rightarrow> request \<Rightarrow> world \<Rightarrow> outcome \<times> world" where
  "graspSrv ar = graspSrv_with (spinOnce ar) ar"

definition releaseSrv ::
  "fpu \<Rightarrow> int \<Rightarrow> real \<Rightarrow> tick list \<Rightarrow> request \<Rightarrow> world \<Rightarrow> outcome \<times> world" where
  "releaseSrv ar = releaseSrv_with (spinOnce ar) ar"

definition incrementSrv ::
  "fpu \<Rightarrow> int \<Rightarrow> fl \<Rightarrow> real \<Rightarrow> tick list \<Rightarrow> incr_request \<Rightarrow> world \<Rightarrow> outcome \<times> world" where
  "incrementSrv ar = incrementSrv_with (spinOnce ar) ar"

text \<open>The commands handed to the transport, in order.\<close>

fun sent :: "event list \<Rightarrow> command list" where
  "sent [] = []"
| "sent (Sent c # es) = c # sent es"
| "sent (e # es) = sent es"

subsection \<open>read_thread (lines 583-731): the reader of the auto_update mode\<close>

text \<open>
  One pass of the loop takes what msg_receive gives. The frame is modelled by what the
  loop reads of it: the result of msg_receive, msg.id and msg.len, and what the two
  decoding helpers of wsg50/cmd.h and wsg50/functions.h give on its data, which are
  inputs here (\<open>rx_status\<close> is cmd_get_response_status(msg.data), \<open>rx_val\<close> is
  convert(&msg.data[2])). \<open>rx_elapsed\<close> is the value of \<open>t_\<close> at line 703.
\<close>

record rx =
  rx_res :: int
  rx_id :: byte
  rx_len :: nat
  rx_status :: status
  rx_val :: real
  rx_elapsed :: real

text \<open>
  The log lines and the messages that the reader publishes, in order. One call of
  publish_status_and_joint_states publishes one Status message and one JointState message.
\<close>

datatype reader_log =
    E_too_short
  | E_response_failure
  | I_position_reached
  | I_axis_blocked
  | I_movement_started
  | I_already_running
  | I_movement_aborted
  | I_movement_error
  | I_unknown byte nat
  | E_no_data nat
  | D_rates

datatype notice =
    Status_msg real real real
  | Joint_msg real real real
  | Moving_msg bool
  | Rlog reader_log

text \<open>
  The fields of \<open>info\<close> that the loop writes (info.position, info.speed, info.f_motor),
  its locals pub_state and cnt, and the global g_ismoving.
\<close>

record reader =
  info_position :: real
  info_speed :: real
  info_f_motor :: real
  pub_state :: bool
  cnt0 :: int
  cnt1 :: int
  cnt2 :: int
  g_ismoving :: bool
  published :: "notice list"

definition announce :: "notice \<Rightarrow> reader \<Rightarrow> reader" where
  "announce n r = r\<lparr>published := published r @ [n]\<rparr>"

text \<open>
  Lines 114-141: status_msg.width, .speed and .force, then the joint state with
  position/2000, speed/1000 and the motor force.
\<close>

definition publish_status_and_joint_states :: "reader \<Rightarrow> reader" where
  "publish_status_and_joint_states r =
     announce (Joint_msg (info_position r / 2000) (info_speed r / 1000) (info_f_motor r))
       (announce (Status_msg (info_position r) (info_speed r) (info_f_motor r)) r)"

text \<open>
  The case 0x21 of the switch (lines 657-676), giving the value of \<open>motion\<close>.
\<close>

definition on_move_response :: "status \<Rightarrow> reader \<Rightarrow> int \<times> reader" where
  "on_move_response st r =
     (if st = E_SUCCESS then (0, announce (Rlog I_position_reached) r)
      else if st = E_AXIS_BLOCKED then (0, announce (Rlog I_axis_blocked) r)
      else if st = E_CMD_PENDING then (1, announce (Rlog I_movement_started) r)
      else if st = E_ALREADY_RUNNING then (- 1, announce (Rlog I_already_running) r)
      else if st = E_CMD_ABORTED then (0, announce (Rlog I_movement_aborted) r)
      else (0, announce (Rlog I_movement_error) r))"

text \<open>
  The switch of lines 635-685; \<open>v\<close> is \<open>val\<close>.
\<close>

definition on_response :: "rx \<Rightarrow> real \<Rightarrow> reader \<Rightarrow> int \<times> reader" where
  "on_response m v r =
     (if rx_id m = 0x43 then (- 1, r\<lparr>info_position := v, pub_state := True, cnt0 := cnt0 r + 1\<rparr>)
      else if rx_id m = 0x44 then (- 1, r\<lparr>info_speed := v, cnt1 := cnt1 r + 1\<rparr>)
      else if rx_id m = 0x45 then (- 1, r\<lparr>info_f_motor := v, cnt2 := cnt2 r + 1\<rparr>)
      else if rx_id m = 0x21 then on_move_response (rx_status m) r
      else if rx_id m = 0x22 then (- 1, r)
      else (- 1, announce (Rlog (I_unknown (rx_id m) (rx_len m))) r))"

text \<open>
  Lines 701-719: every five seconds the counts are logged and reset; a rate is 0.0
  exactly when its count is 0.
\<close>

definition check_rates :: "real \<Rightarrow> reader \<Rightarrow> reader" where
  "check_rates t r =
     (if t > 5 then
        (let r0 = (if cnt0 r = 0 then announce (Rlog (E_no_data 0)) r else r);
             r1 = (if cnt1 r = 0 then announce (Rlog (E_no_data 1)) r0 else r0);
             r2 = (if cnt2 r = 0 then announce (Rlog (E_no_data 2)) r1 else r1)
         in (announce (Rlog D_rates) r2)\<lparr>cnt0 := 0, cnt1 := 0, cnt2 := 0\<rparr>)
      else r)"

text \<open>
  \<open>read_step\<close> is the body of the while loop (lines 613-719); the two \<open>continue\<close>
  statements are its first two branches. \<open>read_thread\<close> runs the body on the frames
  that arrive while g_mode_periodic is set. The requests for automatic updates before and
  after the loop are left out.
\<close>

definition read_step :: "rx \<Rightarrow> reader \<Rightarrow> reader" where
  "read_step m r =
     (if rx_res m < 0 \<or> rx_len m < 2 then announce (Rlog E_too_short) r
      else if 0x43 \<le> rx_id m \<and> rx_id m \<le> 0x45 \<and> rx_len m = 6 \<and> rx_status m \<noteq> E_SUCCESS
        then announce (Rlog E_response_failure) r
      else
        (let v = (if 0x43 \<le> rx_id m \<and> rx_id m \<le> 0x45 \<and> rx_len m = 6 then rx_val m else 0)
         in case on_response m v r of (motion, r1) \<Rightarrow>
           (let r2 = (if motion = 0 \<or> motion = 1
                      then (announce (Moving_msg (motion \<noteq> 0)) r1)\<lparr>g_ismoving := (motion \<noteq> 0)\<rparr>
                      else r1);
                r3 = (if pub_state r2
                      then publish_status_and_joint_states (r2\<lparr>pub_state := False\<rparr>)
                      else r2)
            in check_rates (rx_elapsed m) r3)))"

fun read_thread :: "rx list \<Rightarrow> reader \<Rightarrow> reader" where
  "read_thread [] r = r"
| "read_thread (m # ms) r = read_thread ms (read_step m r)"

text \<open>
  The reader's state before the first pass.
\<close>

definition reader_start :: reader where
  "reader_start = \<lparr>info_position = 0, info_speed = 0, info_f_motor = 0, pub_state = False,
     cnt0 = 0, cnt1 = 0, cnt2 = 0, g_ismoving = False, published = []\<rparr>"


subsection \<open>Notions used to state the properties\<close>

text \<open>
  An arithmetic for runs on given inputs: sums and differences without rounding and the
  conversion of an int without rounding. It is the arithmetic of the machine wherever the
  exact result is a float32, as it is at every input used below.
\<close>

fun exact_add :: "fl \<Rightarrow> fl \<Rightarrow> fl" where
  "exact_add (Fin a) (Fin b) = Fin (a + b)"
| "exact_add _ _ = NaN"

fun exact_sub :: "fl \<Rightarrow> fl \<Rightarrow> fl" where
  "exact_sub (Fin a) (Fin b) = Fin (a - b)"
| "exact_sub _ _ = NaN"

definition exact :: fpu where
  "exact = \<lparr>f_add = exact_add, f_sub = exact_sub, f_int = (\<lambda>i. Fin (real_of_int i))\<rparr>"

text \<open>
  The state in which the services start: the initial globals, the size fixed by lines
  771-777 and the mode by lines 779-786 with the default com_mode, which is the polling
  mode; \<open>link\<close> is what the gripper will answer.
\<close>

definition startup :: "int \<Rightarrow> (byte \<Rightarrow> poll list) \<Rightarrow> world" where
  "startup sz link = configure_mode [] (configure_size sz (initial link))"

text \<open>
  The error field of a response, and whether a service returned at all.
\<close>

fun error_of :: "outcome \<Rightarrow> err option" where
  "error_of (Returned b e) = e"
| "error_of _ = None"

fun returned :: "outcome \<Rightarrow> bool" where
  "returned (Returned b e) = True"
| "returned _ = False"

text \<open>
  A result of recv_ack on which a wait loop goes round again: 0, or 1 with
  E_CMD_PENDING. \<open>head_poll\<close> is the result of the next call.
\<close>

definition continuing :: "poll \<Rightarrow> bool" where
  "continuing p = (p = NoMsg \<or> p = Msg E_CMD_PENDING)"

definition head_poll :: "poll list \<Rightarrow> poll" where
  "head_poll ps = (case ps of [] \<Rightarrow> NoMsg | p # _ \<Rightarrow> p)"


text \<open>
  Kinds of events. \<open>quiet\<close>: what a callback other than the stop service leaves while
  the guard is taken (commands, log lines, replies, published messages). \<open>calm\<close>: those
  and quit. \<open>plain\<close>: anything but the sleep and the release of the guard.
  \<open>is_stop\<close>: a Stop command.
\<close>

fun quiet :: "event \<Rightarrow> bool" where
  "quiet Sleep_settle = False"
| "quiet (Guard b) = False"
| "quiet Quit = False"
| "quiet _ = True"



fun is_stop :: "command \<Rightarrow> bool" where
  "is_stop (Stop_cmd b) = True"
| "is_stop _ = False"

text \<open>
  \<open>steady w w'\<close>: \<open>w'\<close> has the guard, the stop flag, the last command id, the size,
  the modes and the link of \<open>w\<close>. \<open>follows w w'\<close>: moreover \<open>w'\<close> has the trace of
  \<open>w\<close> and then quiet events only, with no Stop command among them unless the mode is
  the periodic one. \<open>popped cid n w\<close>: \<open>w\<close> with \<open>n\<close> results for \<open>cid\<close> taken off
  the link.
\<close>

definition steady :: "world \<Rightarrow> world \<Rightarrow> bool" where
  "steady w w' =
     (in_motion w' = in_motion w \<and> stop_called w' = stop_called w \<and>
      last_cmd_id w' = last_cmd_id w \<and> objectGraspped w' = objectGraspped w \<and>
      g_size w' = g_size w \<and> g_mode_script w' = g_mode_script w \<and>
      g_mode_periodic w' = g_mode_periodic w \<and> g_mode_polling w' = g_mode_polling w \<and>
      acks w' = acks w)"

definition follows :: "world \<Rightarrow> world \<Rightarrow> bool" where
  "follows w w' =
     (steady w w' \<and> take (length (trace w)) (trace w') = trace w \<and>
      list_all quiet (drop (length (trace w)) (trace w')) \<and>
      (g_mode_periodic w \<or> filter is_stop (sent (drop (length (trace w)) (trace w'))) = []))"

definition popped :: "byte \<Rightarrow> nat \<Rightarrow> world \<Rightarrow> world" where
  "popped cid n w = w\<lparr>acks := (acks w)(cid := drop n (acks w cid))\<rparr>"





text \<open>
  \<open>quits_at w cid k r\<close>, for the result \<open>r\<close> of a service started in \<open>w\<close>:
  the service called quit and did nothing after it, having taken \<open>k\<close> results for
  \<open>cid\<close> off the link.
\<close>

definition quits_at :: "world \<Rightarrow> byte \<Rightarrow> nat \<Rightarrow> outcome \<times> world \<Rightarrow> bool" where
  "quits_at w cid k r =
     (fst r = Process_quit \<and> last (trace (snd r)) = Quit \<and>
      acks (snd r) = (acks w)(cid := drop k (acks w cid)))"

text \<open>
  The target of an incremental move in the words of the specification: the sum or the
  difference, clamped to the range from 0 to the size.
\<close>

definition spec_target :: "real \<Rightarrow> real \<Rightarrow> real" where
  "spec_target g x = max 0 (min g x)"

section \<open>Lemmas\<close>

subsection \<open>Traces and fields\<close>

lemma sent_append: "sent (xs @ ys) = sent xs @ sent ys"
  by (induction xs rule: sent.induct) simp_all



lemma emit_fields [simp]:
  "in_motion (emit e w) = in_motion w"
  "stop_called (emit e w) = stop_called w"
  "last_cmd_id (emit e w) = last_cmd_id w"
  "objectGraspped (emit e w) = objectGraspped w"
  "g_size (emit e w) = g_size w"
  "g_mode_script (emit e w) = g_mode_script w"
  "g_mode_periodic (emit e w) = g_mode_periodic w"
  "g_mode_polling (emit e w) = g_mode_polling w"
  "g_goal_position (emit e w) = g_goal_position w"
  "g_goal_speed (emit e w) = g_goal_speed w"
  "g_speed (emit e w) = g_speed w"
  "g_ismoving_flag (emit e w) = g_ismoving_flag w"
  "acks (emit e w) = acks w"
  "trace (emit e w) = trace w @ [e]"
  by (simp_all add: emit_def)

lemma set_in_motion_fields [simp]:
  "in_motion (set_in_motion b w) = b"
  "stop_called (set_in_motion b w) = stop_called w"
  "last_cmd_id (set_in_motion b w) = last_cmd_id w"
  "objectGraspped (set_in_motion b w) = objectGraspped w"
  "g_size (set_in_motion b w) = g_size w"
  "g_mode_script (set_in_motion b w) = g_mode_script w"
  "g_mode_periodic (set_in_motion b w) = g_mode_periodic w"
  "g_mode_polling (set_in_motion b w) = g_mode_polling w"
  "g_goal_position (set_in_motion b w) = g_goal_position w"
  "g_goal_speed (set_in_motion b w) = g_goal_speed w"
  "g_speed (set_in_motion b w) = g_speed w"
  "g_ismoving_flag (set_in_motion b w) = g_ismoving_flag w"
  "acks (set_in_motion b w) = acks w"
  "trace (set_in_motion b w) = trace w @ [Guard b]"
  by (simp_all add: set_in_motion_def)

lemma transmit_fields [simp]:
  "in_motion (transmit c w) = in_motion w"
  "stop_called (transmit c w) = stop_called w"
  "last_cmd_id (transmit c w) = last_cmd_id w"
  "objectGraspped (transmit c w) = objectGraspped w"
  "g_size (transmit c w) = g_size w"
  "g_mode_script (transmit c w) = g_mode_script w"
  "g_mode_periodic (transmit c w) = g_mode_periodic w"
  "g_mode_polling (transmit c w) = g_mode_polling w"
  "g_goal_position (transmit c w) = g_goal_position w"
  "g_goal_speed (transmit c w) = g_goal_speed w"
  "g_speed (transmit c w) = g_speed w"
  "g_ismoving_flag (transmit c w) = g_ismoving_flag w"
  "acks (transmit c w) = acks w"
  "trace (transmit c w) = trace w @ [Sent c]"
  by (simp_all add: transmit_def)

lemma issued_fields [simp]:
  "in_motion (issued cid w) = True"
  "stop_called (issued cid w) = stop_called w"
  "last_cmd_id (issued cid w) = cid"
  "objectGraspped (issued cid w) = objectGraspped w"
  "g_size (issued cid w) = g_size w"
  "g_mode_script (issued cid w) = g_mode_script w"
  "g_mode_periodic (issued cid w) = g_mode_periodic w"
  "g_mode_polling (issued cid w) = g_mode_polling w"
  "g_goal_position (issued cid w) = g_goal_position w"
  "g_goal_speed (issued cid w) = g_goal_speed w"
  "g_speed (issued cid w) = g_speed w"
  "g_ismoving_flag (issued cid w) = g_ismoving_flag w"
  "acks (issued cid w) = acks w"
  "trace (issued cid w) = trace w @ [Guard True]"
  by (simp_all add: issued_def)

lemma settle_fields [simp]:
  "in_motion (settle w) = False"
  "stop_called (settle w) = stop_called w"
  "last_cmd_id (settle w) = last_cmd_id w"
  "objectGraspped (settle w) = objectGraspped w"
  "g_size (settle w) = g_size w"
  "g_mode_script (settle w) = g_mode_script w"
  "g_mode_periodic (settle w) = g_mode_periodic w"
  "g_mode_polling (settle w) = g_mode_polling w"
  "g_goal_position (settle w) = g_goal_position w"
  "g_goal_speed (settle w) = g_goal_speed w"
  "g_speed (settle w) = g_speed w"
  "g_ismoving_flag (settle w) = g_ismoving_flag w"
  "acks (settle w) = acks w"
  "trace (settle w) = trace w @ [Sleep_settle, Guard False]"
  by (simp_all add: settle_def)

lemma startup_fields [simp]:
  "in_motion (startup sz link) = False" "stop_called (startup sz link) = False"
  "acks (startup sz link) = link"
  "g_size (startup sz link) = (if sz \<noteq> 210 \<and> sz \<noteq> 110 then 210 else sz)"
  "trace (startup sz link) = (if sz \<noteq> 210 \<and> sz \<noteq> 110 then [Log (W_size sz)] else [])"
  "g_mode_periodic (startup sz link) = False" "g_mode_script (startup sz link) = False"
  "g_mode_polling (startup sz link) = True"
  by (simp_all add: startup_def configure_size_def configure_mode_def initial_def)

lemma exact_fields [simp]:
  "f_add exact = exact_add" "f_sub exact = exact_sub" "f_int exact i = Fin (real_of_int i)"
  by (simp_all add: exact_def)

lemma popped_fields [simp]:
  "in_motion (popped cid n w) = in_motion w" "stop_called (popped cid n w) = stop_called w"
  "last_cmd_id (popped cid n w) = last_cmd_id w" "g_size (popped cid n w) = g_size w"
  "g_mode_periodic (popped cid n w) = g_mode_periodic w"
  "acks (popped cid n w) = (acks w)(cid := drop n (acks w cid))"
  "trace (popped cid n w) = trace w"
  by (simp_all add: popped_def)

lemma popped_0 [simp]: "popped cid 0 w = w"
  by (simp add: popped_def)

lemma popped_popped: "popped cid m (popped cid n w) = popped cid (n + m) w"
  by (simp add: popped_def add.commute)

lemma followsI:
  assumes "steady w w'" "trace w' = trace w @ es" "list_all quiet es"
    "g_mode_periodic w \<or> filter is_stop (sent es) = []"
  shows "follows w w'"
  using assms by (simp add: follows_def)

lemma followsE:
  assumes "follows w w'"
  obtains es where "steady w w'" "trace w' = trace w @ es" "list_all quiet es"
    "g_mode_periodic w \<or> filter is_stop (sent es) = []"
proof -
  let ?es = "drop (length (trace w)) (trace w')"
  from assms have "trace w' = trace w @ ?es"
    by (metis append_take_drop_id follows_def)
  with assms that show thesis by (simp add: follows_def)
qed

lemma follows_refl [simp]: "follows w w"
  by (rule followsI[of _ _ "[]"]) (simp_all add: steady_def)

lemma follows_trans:
  assumes "follows a b" "follows b c"
  shows "follows a c"
proof -
  from assms(1) obtain es where 1: "steady a b" "trace b = trace a @ es" "list_all quiet es"
    "g_mode_periodic a \<or> filter is_stop (sent es) = []" by (rule followsE)
  from assms(2) obtain es' where 2: "steady b c" "trace c = trace b @ es'" "list_all quiet es'"
    "g_mode_periodic b \<or> filter is_stop (sent es') = []" by (rule followsE)
  show ?thesis
    using 1 2 by (intro followsI[of _ _ "es @ es'"]) (auto simp add: steady_def sent_append)
qed

lemma follows_popped:
  assumes "follows a b"
  shows "follows (popped cid n a) (popped cid n b)"
proof -
  from assms obtain es where 1: "steady a b" "trace b = trace a @ es" "list_all quiet es"
    "g_mode_periodic a \<or> filter is_stop (sent es) = []" by (rule followsE)
  show ?thesis
    using 1 by (intro followsI[of _ _ es]) (auto simp add: steady_def popped_def)
qed

lemma follows_fields:
  assumes "follows w w'"
  shows "in_motion w' = in_motion w" "stop_called w' = stop_called w"
    "last_cmd_id w' = last_cmd_id w" "acks w' = acks w" "g_size w' = g_size w"
    "g_mode_periodic w' = g_mode_periodic w"
  using assms by (simp_all add: follows_def steady_def)

lemma follows_emit:
  assumes "quiet e" "g_mode_periodic w \<or> filter is_stop (sent [e]) = []"
  shows "follows w (emit e w)"
  using assms by (intro followsI[of _ _ "[e]"]) (simp_all add: steady_def)

lemma follows_log [simp]: "follows w (emit (Log m) w)"
  by (rule follows_emit) simp_all

lemma follows_reply [simp]: "follows w (emit (Reply b e) w)"
  by (rule follows_emit) simp_all

subsection \<open>recv_ack and stopSrv\<close>

lemma recv_ack_head:
  "recv_ack cid w = (head_poll (acks w cid), popped cid 1 w)"
  by (cases "acks w cid") (simp_all add: recv_ack_def head_poll_def popped_def fun_upd_idem)


lemma drain_by_recv_ack:
  "acks w cid \<noteq> [] \<Longrightarrow>
   drain (acks w cid) =
     (case recv_ack cid w of
        (NoMsg, w') \<Rightarrow> drain (acks w' cid)
      | (_, w') \<Rightarrow> Some (acks w' cid))"
  by (cases "acks w cid"; cases "hd (acks w cid)") (simp_all add: recv_ack_def)

lemma stopSrv_busy:
  assumes "in_motion w"
  shows "stopSrv w =
     (case drain (acks w (last_cmd_id w)) of
        None \<Rightarrow> (False, w\<lparr>acks := (acks w)(last_cmd_id w := []),
                   trace := trace w @ [Log W_stop, Sent (Stop_cmd (Some (last_cmd_id w = 0x20))),
                     Log W_waiting]\<rparr>)
      | Some rest \<Rightarrow> (True, w\<lparr>stop_called := True, acks := (acks w)(last_cmd_id w := rest),
                   trace := trace w @ [Log W_stop, Sent (Stop_cmd (Some (last_cmd_id w = 0x20))),
                     Log W_waiting, Log W_stopped]\<rparr>))"
  using assms by (simp add: stopSrv_def Let_def emit_def transmit_def split: option.splits)


subsection \<open>Callbacks run while the guard is taken\<close>

lemma timer_cb_busy:
  assumes "in_motion w"
  shows "follows w (timer_cb i w)"
proof -
  have "\<exists>es. steady w (timer_cb i w) \<and> trace (timer_cb i w) = trace w @ es \<and>
      list_all quiet es \<and> filter is_stop (sent es) = []"
    using assms
    by (auto simp add: timer_cb_def Let_def publish_state_def steady_def sent_append)
  then show ?thesis by (auto intro: followsI)
qed

lemma position_cb_follows: "follows w (position_cb spd pos rc w)"
proof -
  have "\<exists>es. steady w (position_cb spd pos rc w) \<and>
      trace (position_cb spd pos rc w) = trace w @ es \<and> list_all quiet es \<and>
      (g_mode_periodic w \<or> filter is_stop (sent es) = [])"
    by (auto simp add: position_cb_def Let_def steady_def)
  then show ?thesis by (auto intro: followsI)
qed

lemma speed_cb_follows: "follows w (speed_cb v w)"
  by (rule followsI[of _ _ "[]"]) (simp_all add: speed_cb_def steady_def)

lemma sent_reply_follows:
  assumes "\<not> is_stop c"
  shows "follows w (emit (Reply b e) (transmit c w))"
  using assms by (intro followsI[of _ _ "[Sent c, Reply b e]"]) (simp_all add: steady_def)

lemma busy_reply_follows:
  "follows w (emit (Reply b e) (emit (Log W_busy) w))"
  by (intro followsI[of _ _ "[Log W_busy, Reply b e]"]) (simp_all add: steady_def)

lemma dispatch_busy:
  assumes "in_motion w" "c \<noteq> Cb_stop"
  shows "\<exists>w'. dispatch ar c w = (True, w') \<and> follows w w'"
proof (cases c)
  case Cb_stop
  with assms show ?thesis by simp
next
  case (Cb_move rc req)
  with assms show ?thesis by (simp add: moveSrv_with_def busy_reply_follows)
next
  case (Cb_grasp rc req)
  with assms show ?thesis by (simp add: graspSrv_with_def busy_reply_follows)
next
  case (Cb_release rc req)
  with assms show ?thesis by (simp add: releaseSrv_with_def busy_reply_follows)
next
  case (Cb_incr rc cur req)
  with assms show ?thesis by (simp add: incrementSrv_with_def busy_reply_follows)
next
  case (Cb_homing rc)
  with assms show ?thesis by (simp add: homingSrv_def busy_reply_follows)
next
  case Cb_ack
  then show ?thesis by (simp add: ackSrv_def sent_reply_follows)
next
  case (Cb_set_acc v)
  then show ?thesis by (simp add: setAccSrv_def sent_reply_follows)
next
  case (Cb_set_force v)
  then show ?thesis by (simp add: setForceSrv_def sent_reply_follows)
next
  case (Cb_position spd pos rc)
  then show ?thesis by (simp add: position_cb_follows)
next
  case (Cb_speed v)
  then show ?thesis by (simp add: speed_cb_follows)
next
  case (Cb_timer i)
  with assms show ?thesis by (simp add: timer_cb_busy)
qed

lemma spinOnce_busy:
  "in_motion w \<Longrightarrow> Cb_stop \<notin> set cbs \<Longrightarrow>
   \<exists>w'. spinOnce ar cbs w = (True, w') \<and> follows w w'"
proof (induction cbs arbitrary: w)
  case Nil
  show ?case by simp
next
  case (Cons c cs)
  from Cons.prems obtain w1 where d: "dispatch ar c w = (True, w1)" and f: "follows w w1"
    using dispatch_busy[of w c ar] by auto
  from f Cons.prems have "in_motion w1" by (simp add: follows_fields)
  moreover from Cons.prems have "Cb_stop \<notin> set cs" by simp
  ultimately obtain w2 where s: "spinOnce ar cs w1 = (True, w2)" and f': "follows w1 w2"
    using Cons.IH by blast
  show ?case using d s follows_trans[OF f f'] by simp
qed


lemma dispatch_appends:
  assumes "in_motion w"
  shows "\<exists>es. trace (snd (dispatch ar c w)) = trace w @ es \<and> in_motion (snd (dispatch ar c w))"
proof (cases "c = Cb_stop")
  case True
  show ?thesis
  proof (cases "drain (acks w (last_cmd_id w))")
    case None
    then show ?thesis using True assms by (simp add: stopSrv_busy)
  next
    case (Some rest)
    then show ?thesis using True assms by (simp add: stopSrv_busy)
  qed
next
  case False
  from dispatch_busy[OF assms False, of ar] obtain w' where
    d: "dispatch ar c w = (True, w')" and f: "follows w w'" by blast
  from f obtain es where "trace w' = trace w @ es" by (rule followsE)
  then show ?thesis using d f assms by (simp add: follows_fields)
qed

lemma spinOnce_appends:
  "in_motion w \<Longrightarrow>
   \<exists>es. trace (snd (spinOnce ar cbs w)) = trace w @ es \<and> in_motion (snd (spinOnce ar cbs w))"
proof (induction cbs arbitrary: w)
  case Nil
  then show ?case by simp
next
  case (Cons c cs)
  from dispatch_appends[OF Cons.prems, of ar c] obtain es where
    d: "trace (snd (dispatch ar c w)) = trace w @ es" "in_motion (snd (dispatch ar c w))" by blast
  obtain r w' where rw: "dispatch ar c w = (r, w')" by (cases "dispatch ar c w")
  show ?case
  proof (cases r)
    case False
    then show ?thesis using d rw by simp
  next
    case True
    from d rw have "in_motion w'" by simp
    from Cons.IH[OF this] obtain es' where
      "trace (snd (spinOnce ar cs w')) = trace w' @ es'" "in_motion (snd (spinOnce ar cs w'))"
      by blast
    then show ?thesis using d rw True by simp
  qed
qed

subsection \<open>The wait loop of the move, grasp, release and increment services\<close>

lemma pending_log_follows:
  "follows w (if p = Msg E_CMD_PENDING then emit (Log I_pending) w else w)"
  by simp

text \<open>one pass of the loop without stop: what the callbacks leave\<close>

lemma await_ack_spin:
  assumes "in_motion w" "Cb_stop \<notin> set (calls t)"
  shows "\<exists>w3. follows (popped cid 1 w) w3 \<and>
     await_ack (spinOnce ar) cid bgn (t # ts) w =
       (if stop_called w then (Stopped, set_in_motion False (w3\<lparr>stop_called := False\<rparr>))
        else if now t - bgn > timeout_commands then (Timed_out, emit Quit w3)
        else if continuing (head_poll (acks w cid)) then await_ack (spinOnce ar) cid bgn ts w3
        else (case head_poll (acks w cid) of Msg s \<Rightarrow> Terminal s | _ \<Rightarrow> Recv_error, w3))"
proof -
  let ?p = "head_poll (acks w cid)"
  let ?w1 = "popped cid 1 w"
  let ?w2 = "if ?p = Msg E_CMD_PENDING then emit (Log I_pending) ?w1 else ?w1"
  have f2: "follows ?w1 ?w2" by (rule pending_log_follows)
  have "in_motion ?w2" using assms(1) by simp
  from spinOnce_busy[OF this assms(2), of ar] obtain w3 where
    sp: "spinOnce ar (calls t) ?w2 = (True, w3)" and f3: "follows ?w2 w3" by blast
  have f: "follows ?w1 w3" by (rule follows_trans[OF f2 f3])
  then have sc: "stop_called w3 = stop_called w" by (simp add: follows_fields)
  have "await_ack (spinOnce ar) cid bgn (t # ts) w =
       (if stop_called w then (Stopped, set_in_motion False (w3\<lparr>stop_called := False\<rparr>))
        else if now t - bgn > timeout_commands then (Timed_out, emit Quit w3)
        else if continuing ?p then await_ack (spinOnce ar) cid bgn ts w3
        else (case ?p of Msg s \<Rightarrow> Terminal s | _ \<Rightarrow> Recv_error, w3))"
    using sp sc
    by (auto simp add: recv_ack_head continuing_def simp del: spinOnce.simps split: poll.splits)
  with f show ?thesis by blast
qed

lemma await_ack_pass:
  assumes "in_motion w" "\<not> stop_called w" "Cb_stop \<notin> set (calls t)"
    "now t - bgn \<le> timeout_commands" "continuing (head_poll (acks w cid))"
  shows "\<exists>w3. follows (popped cid 1 w) w3 \<and>
     await_ack (spinOnce ar) cid bgn (t # ts) w = await_ack (spinOnce ar) cid bgn ts w3"
  using await_ack_spin[OF assms(1,3), of cid ar bgn ts] assms(2,4,5) by auto

lemma await_ack_late:
  assumes "in_motion w" "\<not> stop_called w" "Cb_stop \<notin> set (calls t)"
    "now t - bgn > timeout_commands"
  shows "\<exists>w3. follows (popped cid 1 w) w3 \<and>
     await_ack (spinOnce ar) cid bgn (t # ts) w = (Timed_out, emit Quit w3)"
  using await_ack_spin[OF assms(1,3), of cid ar bgn ts] assms(2,4) by auto

lemma await_ack_terminal:
  assumes "in_motion w" "\<not> stop_called w" "Cb_stop \<notin> set (calls t)"
    "now t - bgn \<le> timeout_commands" "\<not> continuing (head_poll (acks w cid))"
  shows "\<exists>w3. follows (popped cid 1 w) w3 \<and>
     await_ack (spinOnce ar) cid bgn (t # ts) w =
       (case head_poll (acks w cid) of Msg s \<Rightarrow> Terminal s | _ \<Rightarrow> Recv_error, w3)"
  using await_ack_spin[OF assms(1,3), of cid ar bgn ts] assms(2,4,5) by auto

lemma head_poll_take:
  assumes "\<forall>p\<in>set (take (Suc n) l). continuing p"
  shows "continuing (head_poll l)"
  using assms by (cases l) (simp_all add: head_poll_def continuing_def)

lemma await_ack_skip:
  assumes "in_motion w" "\<not> stop_called w"
    "\<forall>u\<in>set pre. Cb_stop \<notin> set (calls u) \<and> now u - bgn \<le> timeout_commands"
    "\<forall>p\<in>set (take (length pre) (acks w cid)). continuing p"
  shows "\<exists>w1. follows (popped cid (length pre) w) w1 \<and>
     await_ack (spinOnce ar) cid bgn (pre @ ts) w = await_ack (spinOnce ar) cid bgn ts w1"
  using assms
proof (induction pre arbitrary: w)
  case Nil
  show ?case by (intro exI[of _ w]) simp
next
  case (Cons u pre)
  have hp: "continuing (head_poll (acks w cid))"
    using Cons.prems(4) by (intro head_poll_take[of "length pre"]) simp
  from Cons.prems have u: "Cb_stop \<notin> set (calls u)" "now u - bgn \<le> timeout_commands" by simp_all
  from await_ack_pass[OF Cons.prems(1,2) u hp, of ar "pre @ ts"] obtain w1 where
    f: "follows (popped cid 1 w) w1" and
    st: "await_ack (spinOnce ar) cid bgn (u # pre @ ts) w =
         await_ack (spinOnce ar) cid bgn (pre @ ts) w1"
    by blast
  have a: "in_motion w1" "\<not> stop_called w1" using Cons.prems(1,2) f by (simp_all add: follows_fields)
  have b: "\<forall>u\<in>set pre. Cb_stop \<notin> set (calls u) \<and> now u - bgn \<le> timeout_commands"
    using Cons.prems(3) by simp
  have "acks w1 cid = tl (acks w cid)" using f by (simp add: follows_fields drop_Suc)
  then have c: "\<forall>p\<in>set (take (length pre) (acks w1 cid)). continuing p"
    using Cons.prems(4) by (cases "acks w cid") simp_all
  from Cons.IH[OF a b c] obtain w2 where
    f': "follows (popped cid (length pre) w1) w2" and
    st': "await_ack (spinOnce ar) cid bgn (pre @ ts) w1 = await_ack (spinOnce ar) cid bgn ts w2"
    by blast
  have "follows (popped cid (length pre) (popped cid 1 w)) (popped cid (length pre) w1)"
    by (rule follows_popped[OF f])
  then have "follows (popped cid (length (u # pre)) w) w2"
    using f' by (simp add: popped_popped follows_trans)
  moreover have "await_ack (spinOnce ar) cid bgn ((u # pre) @ ts) w =
        await_ack (spinOnce ar) cid bgn ts w2"
    unfolding append_Cons st st' ..
  ultimately show ?case by blast
qed



lemma await_ack_appends:
  "in_motion w \<Longrightarrow>
   \<exists>es. trace (snd (await_ack (spinOnce ar) cid bgn tks w)) = trace w @ es"
proof (induction tks arbitrary: w)
  case Nil
  then show ?case by simp
next
  case (Cons t ts)
  let ?p = "head_poll (acks w cid)"
  let ?w1 = "popped cid 1 w"
  let ?w2 = "if ?p = Msg E_CMD_PENDING then emit (Log I_pending) ?w1 else ?w1"
  have t2: "\<exists>es. trace ?w2 = trace w @ es" by simp
  have "in_motion ?w2" using Cons.prems by simp
  from spinOnce_appends[OF this, of ar "calls t"] obtain es where
    sp: "trace (snd (spinOnce ar (calls t) ?w2)) = trace ?w2 @ es"
       "in_motion (snd (spinOnce ar (calls t) ?w2))" by blast
  obtain r w3 where rw: "spinOnce ar (calls t) ?w2 = (r, w3)"
    by (cases "spinOnce ar (calls t) ?w2")
  with sp t2 have w3: "\<exists>es. trace w3 = trace w @ es" "in_motion w3" by auto
  have step: "await_ack (spinOnce ar) cid bgn (t # ts) w =
      (if \<not> r then (Still_waiting, w3)
       else if stop_called w3 then (Stopped, set_in_motion False (w3\<lparr>stop_called := False\<rparr>))
       else if now t - bgn > timeout_commands then (Timed_out, emit Quit w3)
       else if continuing ?p then await_ack (spinOnce ar) cid bgn ts w3
       else (case ?p of Msg s \<Rightarrow> Terminal s | _ \<Rightarrow> Recv_error, w3))"
    using rw
    by (auto simp add: recv_ack_head continuing_def simp del: spinOnce.simps split: poll.splits)
  from Cons.IH[OF w3(2)] obtain es' where
    ih: "trace (snd (await_ack (spinOnce ar) cid bgn ts w3)) = trace w3 @ es'"
    by blast
  from w3(1) obtain es3 where e3: "trace w3 = trace w @ es3" by blast
  show ?case unfolding step using e3 ih
    by (auto simp del: await_ack.simps)
qed

text \<open>the deadline is not passed before a pass reads the clock beyond it\<close>

lemma await_ack_timed_out:
  "fst (await_ack spin cid bgn tks w) = Timed_out \<Longrightarrow>
   \<exists>t\<in>set tks. now t - bgn > timeout_commands"
proof (induction tks arbitrary: w)
  case Nil
  then show ?case by simp
next
  case (Cons t ts)
  show ?case
  proof (cases "now t - bgn > timeout_commands")
    case True
    then show ?thesis by simp
  next
    case False
    obtain p w1 where r: "recv_ack cid w = (p, w1)" by (cases "recv_ack cid w")
    let ?w2 = "if p = Msg E_CMD_PENDING then emit (Log I_pending) w1 else w1"
    obtain b w3 where s: "spin (calls t) ?w2 = (b, w3)" by (cases "spin (calls t) ?w2")
    from Cons.prems False r s
    have "fst (await_ack spin cid bgn ts w3) = Timed_out"
      by (auto split: if_splits poll.splits)
    from Cons.IH[OF this] show ?thesis by simp
  qed
qed

lemma await_ack_deadline:
  assumes "in_motion w" "\<not> stop_called w"
    "\<forall>u\<in>set pre. Cb_stop \<notin> set (calls u) \<and> now u - bgn \<le> timeout_commands"
    "\<forall>p\<in>set (take (length pre) (acks w cid)). continuing p"
    "Cb_stop \<notin> set (calls t)" "now t - bgn > timeout_commands"
  shows "\<exists>w'. await_ack (spinOnce ar) cid bgn (pre @ t # post) w = (Timed_out, w') \<and>
     last (trace w') = Quit \<and> acks w' = (acks w)(cid := drop (Suc (length pre)) (acks w cid))"
proof -
  from await_ack_skip[OF assms(1-4), of ar "t # post"] obtain w1 where
    f: "follows (popped cid (length pre) w) w1" and
    st: "await_ack (spinOnce ar) cid bgn (pre @ t # post) w =
         await_ack (spinOnce ar) cid bgn (t # post) w1"
    by blast
  have "in_motion w1" "\<not> stop_called w1" using assms(1,2) f by (simp_all add: follows_fields)
  from await_ack_late[OF this assms(5,6), of cid ar post] obtain w3 where
    f3: "follows (popped cid 1 w1) w3" and
    r: "await_ack (spinOnce ar) cid bgn (t # post) w1 = (Timed_out, emit Quit w3)"
    by blast
  have "acks w3 = (acks w)(cid := drop (Suc (length pre)) (acks w cid))"
    using f f3 by (simp add: follows_fields)
  then show ?thesis
    unfolding st r by simp
qed







subsection \<open>The wait loop of the homing service\<close>

lemma await_home_step:
  "await_home bgn (t # ts) w =
     (if now t - bgn > timeout_commands
      then (Timed_out, emit Quit (if head_poll (acks w 0x20) = Msg E_CMD_PENDING
                then emit (Log I_pending) (popped 0x20 1 w) else popped 0x20 1 w))
      else if continuing (head_poll (acks w 0x20))
      then await_home bgn ts (if head_poll (acks w 0x20) = Msg E_CMD_PENDING
                then emit (Log I_pending) (popped 0x20 1 w) else popped 0x20 1 w)
      else (case head_poll (acks w 0x20) of Msg s \<Rightarrow> Terminal s | _ \<Rightarrow> Recv_error,
            if head_poll (acks w 0x20) = Msg E_CMD_PENDING
                then emit (Log I_pending) (popped 0x20 1 w) else popped 0x20 1 w))"
proof (cases "head_poll (acks w 0x20)")
  case NoMsg
  then show ?thesis by (simp add: recv_ack_head continuing_def)
next
  case (Msg s)
  then show ?thesis by (simp add: recv_ack_head continuing_def)
next
  case Fail
  then show ?thesis by (simp add: recv_ack_head continuing_def)
qed

lemma await_home_pass:
  assumes "now t - bgn \<le> timeout_commands" "continuing (head_poll (acks w 0x20))"
  shows "\<exists>w1. follows (popped 0x20 1 w) w1 \<and>
     await_home bgn (t # ts) w = await_home bgn ts w1"
proof -
  let ?w1 = "if head_poll (acks w 0x20) = Msg E_CMD_PENDING
                then emit (Log I_pending) (popped 0x20 1 w) else popped 0x20 1 w"
  have f: "follows (popped 0x20 1 w) ?w1" by (rule pending_log_follows)
  have st: "await_home bgn (t # ts) w = await_home bgn ts ?w1"
    using assms by (simp add: await_home_step del: await_home.simps)
  from f st show ?thesis by blast
qed

lemma await_home_skip:
  assumes "\<forall>u\<in>set pre. now u - bgn \<le> timeout_commands"
    "\<forall>p\<in>set (take (length pre) (acks w 0x20)). continuing p"
  shows "\<exists>w1. follows (popped 0x20 (length pre) w) w1 \<and>
     await_home bgn (pre @ ts) w = await_home bgn ts w1"
  using assms
proof (induction pre arbitrary: w)
  case Nil
  show ?case by (intro exI[of _ w]) simp
next
  case (Cons u pre)
  have hp: "continuing (head_poll (acks w 0x20))"
    using Cons.prems(2) by (intro head_poll_take[of "length pre"]) simp
  from Cons.prems have u: "now u - bgn \<le> timeout_commands" by simp
  from await_home_pass[OF u hp, of "pre @ ts"] obtain w1 where
    f: "follows (popped 0x20 1 w) w1" and
    st: "await_home bgn (u # pre @ ts) w = await_home bgn (pre @ ts) w1"
    by blast
  have b: "\<forall>u\<in>set pre. now u - bgn \<le> timeout_commands" using Cons.prems(1) by simp
  have "acks w1 0x20 = tl (acks w 0x20)" using f by (simp add: follows_fields drop_Suc)
  then have c: "\<forall>p\<in>set (take (length pre) (acks w1 0x20)). continuing p"
    using Cons.prems(2) by (cases "acks w 0x20") simp_all
  from Cons.IH[OF b c] obtain w2 where
    f': "follows (popped 0x20 (length pre) w1) w2" and
    st': "await_home bgn (pre @ ts) w1 = await_home bgn ts w2"
    by blast
  have "follows (popped 0x20 (length pre) (popped 0x20 1 w)) (popped 0x20 (length pre) w1)"
    by (rule follows_popped[OF f])
  then have "follows (popped 0x20 (length (u # pre)) w) w2"
    using f' by (simp add: popped_popped follows_trans)
  moreover have "await_home bgn ((u # pre) @ ts) w = await_home bgn ts w2"
    unfolding append_Cons st st' ..
  ultimately show ?case by blast
qed

lemma await_home_deadline:
  assumes "\<forall>u\<in>set pre. now u - bgn \<le> timeout_commands"
    "\<forall>p\<in>set (take (length pre) (acks w 0x20)). continuing p"
    "now t - bgn > timeout_commands"
  shows "\<exists>w'. await_home bgn (pre @ t # post) w = (Timed_out, w') \<and>
     last (trace w') = Quit \<and> acks w' = (acks w)(0x20 := drop (Suc (length pre)) (acks w 0x20))"
proof -
  from await_home_skip[OF assms(1,2), of "t # post"] obtain w1 where
    f: "follows (popped 0x20 (length pre) w) w1" and
    st: "await_home bgn (pre @ t # post) w = await_home bgn (t # post) w1"
    by blast
  have a: "acks w1 = (acks w)(0x20 := drop (length pre) (acks w 0x20))"
    using f by (simp add: follows_fields)
  show ?thesis unfolding st using assms(3) a
    by (simp add: await_home_step del: await_home.simps)
qed


lemma await_home_timed_out:
  "fst (await_home bgn tks w) = Timed_out \<Longrightarrow> \<exists>t\<in>set tks. now t - bgn > timeout_commands"
proof (induction tks arbitrary: w)
  case Nil
  then show ?case by simp
next
  case (Cons t ts)
  show ?case
  proof (cases "now t - bgn > timeout_commands")
    case True
    then show ?thesis by simp
  next
    case False
    let ?w2 = "if head_poll (acks w 0x20) = Msg E_CMD_PENDING
                then emit (Log I_pending) (popped 0x20 1 w) else popped 0x20 1 w"
    from Cons.prems False have "fst (await_home bgn ts ?w2) = Timed_out"
      by (auto simp add: await_home_step simp del: await_home.simps
          split: if_splits poll.splits)
    from Cons.IH[OF this] show ?thesis by simp
  qed
qed

lemma await_home_ignores_calls:
  "await_home bgn (map (\<lambda>u. u\<lparr>calls := cs\<rparr>) tks) w = await_home bgn tks w"
  by (induction tks arbitrary: w) (simp_all split: prod.splits poll.splits)

subsection \<open>From the loops to the services\<close>




lemma finish_motion_quit:
  assumes "lw = (Timed_out, w')" "last (trace w') = Quit" "acks w' = (acks w)(cid := l)"
    "l = drop k (acks w cid)"
  shows "quits_at w cid k (finish_motion f lw)"
  using assms by (simp add: quits_at_def)

lemma finish_motion_no_quit:
  "fst (finish_motion f lw) = Process_quit \<Longrightarrow> fst lw = Timed_out"
  by (cases lw; cases "fst lw") auto




lemma homing_no_quit:
  assumes "fst (homingSrv rc bgn tks w) = Process_quit"
  shows "\<exists>t\<in>set tks. now t - bgn > timeout_commands"
proof -
  let ?w0 = "issued 0x20 (transmit Homing_cmd w)"
  obtain lr w1 where lw: "await_home bgn tks ?w0 = (lr, w1)"
    by (cases "await_home bgn tks ?w0")
  from assms have "lr = Timed_out"
    using lw by (cases lr) (auto simp add: homingSrv_def Let_def split: if_splits)
  then have "fst (await_home bgn tks ?w0) = Timed_out" using lw by simp
  then show ?thesis by (rule await_home_timed_out)
qed

lemma motion_no_quit:
  assumes "fst (finish_motion f (await_ack spin cid bgn tks w0)) = Process_quit"
  shows "\<exists>t\<in>set tks. now t - bgn > timeout_commands"
  using assms by (intro await_ack_timed_out[of spin cid bgn tks w0] finish_motion_no_quit)

lemma homing_quits:
  assumes "\<not> in_motion w" "\<forall>u\<in>set pre. now u - bgn \<le> timeout_commands"
    "list_all continuing (take (length pre) (acks w 0x20))"
    "now t - bgn > timeout_commands"
  shows "quits_at w 0x20 (Suc (length pre)) (homingSrv 0 bgn (pre @ t # post) w)"
proof -
  let ?w0 = "issued 0x20 (transmit Homing_cmd w)"
  have "\<forall>p\<in>set (take (length pre) (acks ?w0 0x20)). continuing p"
    using assms(3) by (simp add: list_all_iff)
  from await_home_deadline[OF assms(2) this assms(4), of post] obtain w' where
    "await_home bgn (pre @ t # post) ?w0 = (Timed_out, w')" "last (trace w') = Quit"
    "acks w' = (acks ?w0)(0x20 := drop (Suc (length pre)) (acks ?w0 0x20))"
    by blast
  then show ?thesis using assms(1)
    by (simp add: homingSrv_def quits_at_def)
qed

lemma motion_quits:
  assumes "\<not> stop_called w" "\<forall>u\<in>set pre. Cb_stop \<notin> set (calls u) \<and> now u - bgn \<le> timeout_commands"
    "list_all continuing (take (length pre) (acks w cid))"
    "Cb_stop \<notin> set (calls t)" "now t - bgn > timeout_commands"
    and w0: "acks w0 = acks w" "stop_called w0 = stop_called w"
  shows "quits_at w cid (Suc (length pre))
     (finish_motion f (await_ack (spinOnce ar) cid bgn (pre @ t # post) (issued cid w0)))"
proof -
  have a: "in_motion (issued cid w0)" "\<not> stop_called (issued cid w0)"
    using assms(1) w0 by simp_all
  have c: "\<forall>p\<in>set (take (length pre) (acks (issued cid w0) cid)). continuing p"
    using assms(3) w0 by (simp add: list_all_iff)
  from await_ack_deadline[OF a assms(2) c assms(4,5), of ar post] obtain w' where
    r: "await_ack (spinOnce ar) cid bgn (pre @ t # post) (issued cid w0) = (Timed_out, w')"
    "last (trace w') = Quit"
    "acks w' = (acks (issued cid w0))(cid := drop (Suc (length pre)) (acks (issued cid w0) cid))"
    by blast
  show ?thesis
    by (rule finish_motion_quit[OF r(1,2)]) (use r(3) w0 in simp_all)
qed


lemma motion_appends:
  assumes "in_motion w0" and f: "\<And>w. trace (f w) = trace w"
  shows "\<exists>es. trace (snd (finish_motion f (await_ack (spinOnce ar) cid bgn tks w0))) = trace w0 @ es"
proof -
  from await_ack_appends[OF assms(1), of ar cid bgn tks] obtain es where
    es: "trace (snd (await_ack (spinOnce ar) cid bgn tks w0)) = trace w0 @ es" by blast
  obtain lr w1 where lw: "await_ack (spinOnce ar) cid bgn tks w0 = (lr, w1)"
    by (cases "await_ack (spinOnce ar) cid bgn tks w0")
  show ?thesis using es unfolding lw
    by (cases lr) (simp_all add: f)
qed

lemma increment_sends:
  assumes "\<not> in_motion w" "next_target ar (g_size w) cur req = Some (tgt, spd)"
  shows "\<exists>more. sent (trace (snd (incrementSrv ar rc cur bgn tks req w))) =
           sent (trace w) @ [Opening_query, Move_cmd tgt spd True] @ more"
proof (cases "rc = 0")
  case False
  with assms show ?thesis
    by (intro exI[of _ "[]"]) (simp add: incrementSrv_def incrementSrv_with_def sent_append)
next
  case True
  let ?w2 = "transmit (Move_cmd tgt spd True) (transmit Opening_query w)"
  have "\<exists>es. trace (snd (finish_motion (\<lambda>w. w)
        (await_ack (spinOnce ar) 0x21 bgn tks (issued 0x21 ?w2)))) = trace (issued 0x21 ?w2) @ es"
    by (rule motion_appends) simp_all
  then obtain es where
    "trace (snd (finish_motion (\<lambda>w. w) (await_ack (spinOnce ar) 0x21 bgn tks (issued 0x21 ?w2)))) =
     trace (issued 0x21 ?w2) @ es" by blast
  with assms True show ?thesis
    by (intro exI[of _ "sent es"])
       (simp add: incrementSrv_def incrementSrv_with_def sent_append del: await_ack.simps)
qed

lemma next_target_open:
  assumes "direction req = ''open''" "f_int ar g = Fin (real_of_int g)"
    "f_add ar cur (increment req) = Fin x"
  shows "next_target ar g cur req =
     Some (Fin (min x (real_of_int g)), Fin (if real_of_int g \<le> x then 1 else 20))"
  using assms by (simp add: next_target_def Let_def min_def)

lemma next_target_close:
  assumes "direction req = ''close''" "f_sub ar cur (increment req) = Fin x"
  shows "next_target ar g cur req = Some (Fin (max x 0), Fin (if x \<le> 0 then 1 else 20))"
  using assms by (simp add: next_target_def Let_def max_def)

subsection \<open>The reader\<close>

lemma read_step_valid_opening:
  assumes "0 \<le> rx_res m" "rx_id m = 0x43" "rx_len m = 6" "rx_status m = E_SUCCESS"
    "rx_elapsed m \<le> 5"
  shows "read_step m r =
     r\<lparr>info_position := rx_val m, pub_state := False, cnt0 := cnt0 r + 1,
       published := published r @
         [Status_msg (rx_val m) (info_speed r) (info_f_motor r),
          Joint_msg (rx_val m / 2000) (info_speed r / 1000) (info_f_motor r)]\<rparr>"
  using assms
  by (simp add: read_step_def on_response_def publish_status_and_joint_states_def announce_def
      check_rates_def Let_def)

lemma read_step_rejected:
  assumes "rx_res m < 0 \<or> rx_len m < 2 \<or>
     (0x43 \<le> rx_id m \<and> rx_id m \<le> 0x45 \<and> rx_len m = 6 \<and> rx_status m \<noteq> E_SUCCESS)"
  shows "\<exists>l. read_step m r = r\<lparr>published := published r @ [Rlog l]\<rparr>"
  using assms by (auto simp add: read_step_def announce_def)

subsection \<open>Unfolding a run on given inputs\<close>

lemmas run_defs = moveSrv_def moveSrv_with_def graspSrv_def graspSrv_with_def
  releaseSrv_def releaseSrv_with_def incrementSrv_def incrementSrv_with_def homingSrv_def
  next_target_def out_of_range_def speed_flagged_def recv_ack_def stopSrv_def issued_def
  settle_def set_in_motion_def emit_def transmit_def Let_def timeout_commands_def

section \<open>Properties\<close>







text \<open>
  C3. The deadline of an awaited command. As the claim has it, a command for which no
  terminal frame arrives within the deadline ends in quit.

  What holds: \<open>bgn\<close> is read once, when the command has been issued. Let the passes
  \<open>pre\<close> all read the clock within 30 s of \<open>bgn\<close>, let recv_ack give only 0 or
  E_CMD_PENDING in them, and let the pass \<open>t\<close> read the clock more than 30 s after
  \<open>bgn\<close>: then the service calls quit in the pass \<open>t\<close>, after one more call of
  recv_ack, and does not return, however many pending statuses came before. For the four
  services whose loop runs callbacks this is for a wait in which the stop service is not
  run. And no service calls quit as long as every pass reads the clock within 30 s of
  \<open>bgn\<close>, whatever the link gives and whatever callbacks run.
\<close>

theorem deadline_is_fatal:
  assumes "\<not> in_motion w"
    and "\<forall>u\<in>set pre. now u - bgn \<le> timeout_commands"
    and "now t - bgn > timeout_commands"
  shows
   "(list_all continuing (take (length pre) (acks w 0x20)) \<longrightarrow>
       quits_at w 0x20 (Suc (length pre)) (homingSrv 0 bgn (pre @ t # post) w)) \<and>
    (\<not> stop_called w \<and> (\<forall>u\<in>set (pre @ [t]). Cb_stop \<notin> set (calls u)) \<longrightarrow>
      (list_all continuing (take (length pre) (acks w 0x21)) \<longrightarrow>
         (\<not> out_of_range ar (g_size w) (width req) \<longrightarrow>
            quits_at w 0x21 (Suc (length pre)) (moveSrv ar 0 bgn (pre @ t # post) req w)) \<and>
         (direction ireq = ''open'' \<or> direction ireq = ''close'' \<longrightarrow>
            quits_at w 0x21 (Suc (length pre))
              (incrementSrv ar 0 cur bgn (pre @ t # post) ireq w))) \<and>
      (list_all continuing (take (length pre) (acks w 0x25)) \<and>
         \<not> out_of_range ar (g_size w) (width req) \<longrightarrow>
            quits_at w 0x25 (Suc (length pre)) (graspSrv ar 0 bgn (pre @ t # post) req w)) \<and>
      (list_all continuing (take (length pre) (acks w 0x26)) \<and>
         \<not> out_of_range ar (g_size w) (width req) \<longrightarrow>
            quits_at w 0x26 (Suc (length pre)) (releaseSrv ar 0 bgn (pre @ t # post) req w))) \<and>
    ((\<forall>u\<in>set tks. now u - bgn \<le> timeout_commands) \<longrightarrow>
       fst (moveSrv ar rc bgn tks req w) \<noteq> Process_quit \<and>
       fst (graspSrv ar rc bgn tks req w) \<noteq> Process_quit \<and>
       fst (releaseSrv ar rc bgn tks req w) \<noteq> Process_quit \<and>
       fst (incrementSrv ar rc cur bgn tks ireq w) \<noteq> Process_quit \<and>
       fst (homingSrv rc bgn tks w) \<noteq> Process_quit)"
proof -
  have home: "quits_at w 0x20 (Suc (length pre)) (homingSrv 0 bgn (pre @ t # post) w)"
    if "list_all continuing (take (length pre) (acks w 0x20))"
    by (rule homing_quits[OF assms(1,2) that assms(3)])
  have loop: "quits_at w cid (Suc (length pre))
      (finish_motion f (await_ack (spinOnce ar) cid bgn (pre @ t # post) (issued cid w0)))"
    if "\<not> stop_called w" "\<forall>u\<in>set (pre @ [t]). Cb_stop \<notin> set (calls u)"
       "list_all continuing (take (length pre) (acks w cid))"
       "acks w0 = acks w" "stop_called w0 = stop_called w"
    for f cid w0
  proof -
    have b: "\<forall>u\<in>set pre. Cb_stop \<notin> set (calls u) \<and> now u - bgn \<le> timeout_commands"
      using that(2) assms(2) by simp
    have d: "Cb_stop \<notin> set (calls t)" using that(2) by simp
    show ?thesis
      by (rule motion_quits[OF that(1) b that(3) d assms(3) that(4,5)])
  qed
  have upper: "(list_all continuing (take (length pre) (acks w 0x20)) \<longrightarrow>
       quits_at w 0x20 (Suc (length pre)) (homingSrv 0 bgn (pre @ t # post) w)) \<and>
    (\<not> stop_called w \<and> (\<forall>u\<in>set (pre @ [t]). Cb_stop \<notin> set (calls u)) \<longrightarrow>
      (list_all continuing (take (length pre) (acks w 0x21)) \<longrightarrow>
         (\<not> out_of_range ar (g_size w) (width req) \<longrightarrow>
            quits_at w 0x21 (Suc (length pre)) (moveSrv ar 0 bgn (pre @ t # post) req w)) \<and>
         (direction ireq = ''open'' \<or> direction ireq = ''close'' \<longrightarrow>
            quits_at w 0x21 (Suc (length pre))
              (incrementSrv ar 0 cur bgn (pre @ t # post) ireq w))) \<and>
      (list_all continuing (take (length pre) (acks w 0x25)) \<and>
         \<not> out_of_range ar (g_size w) (width req) \<longrightarrow>
            quits_at w 0x25 (Suc (length pre)) (graspSrv ar 0 bgn (pre @ t # post) req w)) \<and>
      (list_all continuing (take (length pre) (acks w 0x26)) \<and>
         \<not> out_of_range ar (g_size w) (width req) \<longrightarrow>
            quits_at w 0x26 (Suc (length pre)) (releaseSrv ar 0 bgn (pre @ t # post) req w)))"
    using assms(1) home loop
    by (simp add: moveSrv_def moveSrv_with_def graspSrv_def graspSrv_with_def
        releaseSrv_def releaseSrv_with_def incrementSrv_def incrementSrv_with_def
        next_target_def Let_def del: await_ack.simps)
  have lower: "fst (moveSrv ar rc bgn tks req w) \<noteq> Process_quit \<and>
       fst (graspSrv ar rc bgn tks req w) \<noteq> Process_quit \<and>
       fst (releaseSrv ar rc bgn tks req w) \<noteq> Process_quit \<and>
       fst (incrementSrv ar rc cur bgn tks ireq w) \<noteq> Process_quit \<and>
       fst (homingSrv rc bgn tks w) \<noteq> Process_quit"
    if le: "\<forall>u\<in>set tks. now u - bgn \<le> timeout_commands"
  proof -
    have nq: "fst (finish_motion f (await_ack (spinOnce ar) cid bgn tks w0)) \<noteq> Process_quit"
      for f cid w0
      using motion_no_quit[of f "spinOnce ar" cid bgn tks w0] le by fastforce
    have "fst (homingSrv rc bgn tks w) \<noteq> Process_quit"
      using homing_no_quit[of rc bgn tks w] le by fastforce
    moreover have "fst (incrementSrv ar rc cur bgn tks ireq w) \<noteq> Process_quit"
      using nq assms(1)
      by (simp add: incrementSrv_def incrementSrv_with_def Let_def
          del: await_ack.simps split: option.splits prod.splits)
    ultimately show ?thesis
      using nq assms(1)
      by (simp add: moveSrv_def moveSrv_with_def graspSrv_def graspSrv_with_def
          releaseSrv_def releaseSrv_with_def Let_def del: await_ack.simps)
  qed
  from upper lower show ?thesis by blast
qed

theorem deadline_is_fatal_witness:
  "quits_at (startup 210 ((\<lambda>_. [])(0x21 := [NoMsg, Msg E_CMD_PENDING]))) 0x21 3
     (moveSrv exact 0 0
        [\<lparr>calls = [Cb_timer \<lparr>state_null = False, script_failed = False, script_moving = False\<rparr>],
          now = 10\<rparr>,
         \<lparr>calls = [Cb_grasp 0 \<lparr>width = Fin 5, speed = Fin 5\<rparr>], now = 29\<rparr>,
         \<lparr>calls = [], now = 31\<rparr>]
        \<lparr>width = Fin 50, speed = Fin 10\<rparr>
        (startup 210 ((\<lambda>_. [])(0x21 := [NoMsg, Msg E_CMD_PENDING])))) \<and>
   quits_at (startup 210 ((\<lambda>_. [])(0x21 := [NoMsg, Msg E_CMD_PENDING]))) 0x20 3
     (homingSrv 0 0
        [\<lparr>calls = [Cb_timer \<lparr>state_null = False, script_failed = False, script_moving = False\<rparr>],
          now = 10\<rparr>,
         \<lparr>calls = [Cb_grasp 0 \<lparr>width = Fin 5, speed = Fin 5\<rparr>], now = 29\<rparr>,
         \<lparr>calls = [], now = 31\<rparr>]
        (startup 210 ((\<lambda>_. [])(0x21 := [NoMsg, Msg E_CMD_PENDING])))) \<and>
   fst (moveSrv exact 0 0 [\<lparr>calls = [], now = 10\<rparr>, \<lparr>calls = [], now = 30\<rparr>]
        \<lparr>width = Fin 50, speed = Fin 10\<rparr>
        (startup 210 ((\<lambda>_. [])(0x21 := [NoMsg, Msg E_CMD_PENDING])))) \<noteq> Process_quit"
  using deadline_is_fatal [where w = "startup 210 ((\<lambda>_. [])(0x21 := [NoMsg, Msg E_CMD_PENDING]))"
      and pre = "[\<lparr>calls = [Cb_timer \<lparr>state_null = False, script_failed = False, script_moving = False\<rparr>], now = 10\<rparr>,
                  \<lparr>calls = [Cb_grasp 0 \<lparr>width = Fin 5, speed = Fin 5\<rparr>], now = 29\<rparr>]"
      and t = "\<lparr>calls = [], now = 31\<rparr>" and post = "[]" and bgn = 0 and ar = exact
      and req = "\<lparr>width = Fin 50, speed = Fin 10\<rparr>" and rc = 0
      and tks = "[\<lparr>calls = [], now = 10\<rparr>, \<lparr>calls = [], now = 30\<rparr>]"
      and cur = "Fin 0" and ireq = "\<lparr>direction = ''open'', increment = Fin 1\<rparr>"]
  by (simp add: timeout_commands_def continuing_def out_of_range_def numeral_3_eq_3)

text \<open>
  C3, where the claim fails: two waits in which no terminal frame ever arrives and quit is
  not called. In the first the stop service is run while the link stays silent: stopSrv
  waits in its own loop, which has no deadline, and the move never returns; the pass that
  would have read the clock at 31 s is never reached. In the second recv_ack gives -1 in
  the first pass: the move returns the error 255 to its caller.
\<close>

theorem wait_without_quit_counterexample:
  "fst (moveSrv exact 0 0 [\<lparr>calls = [Cb_stop], now = 1\<rparr>, \<lparr>calls = [], now = 31\<rparr>]
      \<lparr>width = Fin 50, speed = Fin 10\<rparr> (startup 210 (\<lambda>_. []))) = No_return \<and>
   trace (snd (moveSrv exact 0 0 [\<lparr>calls = [Cb_stop], now = 1\<rparr>, \<lparr>calls = [], now = 31\<rparr>]
      \<lparr>width = Fin 50, speed = Fin 10\<rparr> (startup 210 (\<lambda>_. [])))) =
     [Sent (Move_cmd (Fin 50) (Fin 10) False), Guard True, Log W_stop,
      Sent (Stop_cmd (Some False)), Log W_waiting] \<and>
   fst (moveSrv exact 0 0 [\<lparr>calls = [], now = 1\<rparr>] \<lparr>width = Fin 50, speed = Fin 10\<rparr>
      (startup 210 ((\<lambda>_. [])(0x21 := [Fail])))) = Returned True (Some Code_255) \<and>
   trace (snd (moveSrv exact 0 0 [\<lparr>calls = [], now = 1\<rparr>] \<lparr>width = Fin 50, speed = Fin 10\<rparr>
      (startup 210 ((\<lambda>_. [])(0x21 := [Fail]))))) =
     [Sent (Move_cmd (Fin 50) (Fin 10) False), Guard True, Sleep_settle, Guard False,
      Log E_failed]"
  by (simp add: run_defs)




text \<open>
  C5. The speed check of moveSrv on two requests for width 50. The speed 0.05, which as
  a float32 is 13421773 / 268435456, is below the lower limit 0.1 that the warning itself
  prints, yet the test is \<open>req.speed < 0.0\<close>: no warning is logged. The speed 500 is
  warned about. Both commands go out with the caller's speed.
\<close>

theorem small_speed_not_flagged:
  "trace (snd (moveSrv exact 0 0 [\<lparr>calls = [], now = 1\<rparr>] \<lparr>width = Fin 50, speed = Fin (13421773 / 268435456)\<rparr>
      (startup 210 (\<lambda>_. [Msg E_SUCCESS])))) =
     [Sent (Move_cmd (Fin 50) (Fin (13421773 / 268435456)) False), Guard True, Sleep_settle, Guard False,
      Log I_done] \<and>
   trace (snd (moveSrv exact 0 0 [\<lparr>calls = [], now = 1\<rparr>] \<lparr>width = Fin 50, speed = Fin 500\<rparr>
      (startup 210 (\<lambda>_. [Msg E_SUCCESS])))) =
     [Log W_speed, Sent (Move_cmd (Fin 50) (Fin 500) False), Guard True, Sleep_settle,
      Guard False, Log I_done]"
  by (simp add: run_defs)

text \<open>
  C6. A width outside the range. As the claim has it, every such request is answered
  E_RANGE_ERROR.

  What holds: let the width compare below 0 or above the size (the test of lines 151,
  216 and 348). Then moveSrv, graspSrv and releaseSrv hand nothing to the transport, in
  any state. The test of in_motion comes first in each service: a request that finds the
  guard free is answered E_RANGE_ERROR with the return value false, and one that finds
  the guard taken is answered E_ALREADY_RUNNING with the return value true; the state is
  unchanged but for the log line.
\<close>

theorem range_rejected:
  assumes "out_of_range ar (g_size w) (width req)"
  shows "sent (trace (snd (moveSrv ar rc bgn tks req w))) = sent (trace w) \<and>
         sent (trace (snd (graspSrv ar rc bgn tks req w))) = sent (trace w) \<and>
         sent (trace (snd (releaseSrv ar rc bgn tks req w))) = sent (trace w) \<and>
         (\<not> in_motion w \<longrightarrow>
            moveSrv ar rc bgn tks req w =
              (Returned False (Some (Status E_RANGE_ERROR)), emit (Log E_range) w) \<and>
            graspSrv ar rc bgn tks req w =
              (Returned False (Some (Status E_RANGE_ERROR)), emit (Log E_range) w) \<and>
            releaseSrv ar rc bgn tks req w =
              (Returned False (Some (Status E_RANGE_ERROR)), emit (Log E_range) w)) \<and>
         (in_motion w \<longrightarrow>
            moveSrv ar rc bgn tks req w =
              (Returned True (Some (Status E_ALREADY_RUNNING)), emit (Log W_busy) w) \<and>
            graspSrv ar rc bgn tks req w =
              (Returned True (Some (Status E_ALREADY_RUNNING)), emit (Log W_busy) w) \<and>
            releaseSrv ar rc bgn tks req w =
              (Returned True (Some (Status E_ALREADY_RUNNING)), emit (Log W_busy) w))"
  using assms
  by (auto simp add: moveSrv_def moveSrv_with_def graspSrv_def graspSrv_with_def
        releaseSrv_def releaseSrv_with_def sent_append)

theorem range_rejected_witness:
  "out_of_range exact (g_size (startup 210 (\<lambda>_. []))) (Fin 250) \<and>
   moveSrv exact 0 0 [] \<lparr>width = Fin 250, speed = Fin 10\<rparr> (startup 210 (\<lambda>_. [])) =
     (Returned False (Some (Status E_RANGE_ERROR)), emit (Log E_range) (startup 210 (\<lambda>_. []))) \<and>
   sent (trace (snd (moveSrv exact 0 0 [] \<lparr>width = Fin 250, speed = Fin 10\<rparr>
     (startup 210 (\<lambda>_. []))))) = [] \<and>
   out_of_range exact (g_size (startup 110 (\<lambda>_. []))) (Fin (- 1)) \<and>
   releaseSrv exact 0 0 [] \<lparr>width = Fin (- 1), speed = Fin 10\<rparr> (startup 110 (\<lambda>_. [])) =
     (Returned False (Some (Status E_RANGE_ERROR)), emit (Log E_range) (startup 110 (\<lambda>_. [])))"
  using range_rejected [where req = "\<lparr>width = Fin 250, speed = Fin 10\<rparr>"
      and w = "startup 210 (\<lambda>_. [])" and ar = exact and rc = 0 and bgn = 0 and tks = "[]"]
    range_rejected [where req = "\<lparr>width = Fin (- 1), speed = Fin 10\<rparr>"
      and w = "startup 110 (\<lambda>_. [])" and ar = exact and rc = 0 and bgn = 0 and tks = "[]"]
  by (simp add: out_of_range_def)

text \<open>
  C6, where the claim fails: the width 250 with the size 210, asked for while another
  command holds the guard, is answered E_ALREADY_RUNNING, not E_RANGE_ERROR. And a width
  that is not a number compares neither below 0 nor above the size: it passes the test
  and the command goes out.
\<close>

theorem range_not_reported_counterexample:
  "in_motion (issued 0x25 (startup 210 (\<lambda>_. []))) \<and>
   fst (moveSrv exact 0 0 [] \<lparr>width = Fin 250, speed = Fin 10\<rparr>
      (issued 0x25 (startup 210 (\<lambda>_. [])))) =
     Returned True (Some (Status E_ALREADY_RUNNING)) \<and>
   sent (trace (snd (moveSrv exact 0 0 [\<lparr>calls = [], now = 1\<rparr>] \<lparr>width = NaN, speed = Fin 10\<rparr>
      (startup 210 (\<lambda>_. [Msg E_SUCCESS]))))) = [Move_cmd NaN (Fin 10) False]"
  by (simp add: run_defs)

text \<open>
  C7. The target of an incremental move. As the claim has it, the target is the current
  opening plus or minus the increment, clamped to the range from 0 to the size.

  What holds: the clamp has one side. Let the size convert to float32 without rounding,
  as 110 and 210 do, and let \<open>x\<close> be the float32 sum of the opening and the increment
  for "open", the float32 difference for "close", when that is a finite number. For
  "open" the command carries the smaller of \<open>x\<close> and the size, with speed 1 when
  \<open>x\<close> reaches the size and 20 otherwise; for "close" the larger of \<open>x\<close> and 0, with
  speed 1 when \<open>x\<close> is at most 0 and 20 otherwise. This is the clamp of the
  specification applied to \<open>x\<close> when the unclamped side is in range.
\<close>

theorem increment_target:
  assumes "\<not> in_motion w" "f_int ar (g_size w) = Fin (real_of_int (g_size w))"
  shows
   "(direction req = ''open'' \<and> f_add ar cur (increment req) = Fin x \<longrightarrow>
       (\<exists>more. sent (trace (snd (incrementSrv ar rc cur bgn tks req w))) =
          sent (trace w) @
          [Opening_query,
           Move_cmd (Fin (min x (real_of_int (g_size w))))
             (Fin (if real_of_int (g_size w) \<le> x then 1 else 20)) True] @ more) \<and>
       (0 \<le> x \<and> 0 \<le> g_size w \<longrightarrow>
          min x (real_of_int (g_size w)) = spec_target (real_of_int (g_size w)) x)) \<and>
    (direction req = ''close'' \<and> f_sub ar cur (increment req) = Fin x \<longrightarrow>
       (\<exists>more. sent (trace (snd (incrementSrv ar rc cur bgn tks req w))) =
          sent (trace w) @
          [Opening_query,
           Move_cmd (Fin (max x 0)) (Fin (if x \<le> 0 then 1 else 20)) True] @ more) \<and>
       (x \<le> real_of_int (g_size w) \<longrightarrow>
          max x 0 = spec_target (real_of_int (g_size w)) x))"
proof -
  have "\<exists>more. sent (trace (snd (incrementSrv ar rc cur bgn tks req w))) =
          sent (trace w) @
          [Opening_query,
           Move_cmd (Fin (min x (real_of_int (g_size w))))
             (Fin (if real_of_int (g_size w) \<le> x then 1 else 20)) True] @ more"
    if "direction req = ''open''" "f_add ar cur (increment req) = Fin x"
    by (rule increment_sends[OF assms(1)]) (rule next_target_open[OF that(1) assms(2) that(2)])
  moreover have "\<exists>more. sent (trace (snd (incrementSrv ar rc cur bgn tks req w))) =
          sent (trace w) @
          [Opening_query,
           Move_cmd (Fin (max x 0)) (Fin (if x \<le> 0 then 1 else 20)) True] @ more"
    if "direction req = ''close''" "f_sub ar cur (increment req) = Fin x"
    by (rule increment_sends[OF assms(1)]) (rule next_target_close[OF that])
  ultimately show ?thesis
    by (auto simp add: spec_target_def)
qed

theorem increment_target_witness:
  "sent (trace (snd (incrementSrv exact 0 (Fin 208) 0 [\<lparr>calls = [], now = 1\<rparr>]
      \<lparr>direction = ''open'', increment = Fin 5\<rparr> (startup 210 (\<lambda>_. [Msg E_SUCCESS]))))) =
     [Opening_query, Move_cmd (Fin 210) (Fin 1) True] \<and>
   sent (trace (snd (incrementSrv exact 0 (Fin 8) 0 [\<lparr>calls = [], now = 1\<rparr>]
      \<lparr>direction = ''close'', increment = Fin 5\<rparr> (startup 210 (\<lambda>_. [Msg E_SUCCESS]))))) =
     [Opening_query, Move_cmd (Fin 3) (Fin 20) True] \<and>
   spec_target 210 (208 + 5) = 210"
  using increment_target [where w = "startup 210 (\<lambda>_. [Msg E_SUCCESS])"
      and req = "\<lparr>direction = ''open'', increment = Fin 5\<rparr>" and rc = 0 and cur = "Fin 208"
      and bgn = 0 and tks = "[\<lparr>calls = [], now = 1\<rparr>]" and ar = exact and x = 213]
    increment_target [where w = "startup 210 (\<lambda>_. [Msg E_SUCCESS])"
      and req = "\<lparr>direction = ''close'', increment = Fin 5\<rparr>" and rc = 0 and cur = "Fin 8"
      and bgn = 0 and tks = "[\<lparr>calls = [], now = 1\<rparr>]" and ar = exact and x = 3]
  by (simp add: run_defs spec_target_def sent_append)

text \<open>
  C7, where the claim fails: opening 5, direction "open", increment -10 and size 210.
  The command carries the width -5, where the clamp of the specification gives 0.
\<close>

theorem increment_unclamped_counterexample:
  "sent (trace (snd (incrementSrv exact 0 (Fin 5) 0 [\<lparr>calls = [], now = 1\<rparr>]
      \<lparr>direction = ''open'', increment = Fin (- 10)\<rparr> (startup 210 (\<lambda>_. [Msg E_SUCCESS]))))) =
     [Opening_query, Move_cmd (Fin (- 5)) (Fin 20) True] \<and>
   spec_target 210 (5 + (- 10)) = 0"
  by (simp add: run_defs spec_target_def sent_append)

text \<open>
  C8. The reader on two frames with the opening id 0x43. The first is a push with
  E_SUCCESS and the value 42: the position becomes 42 and one status message and one joint
  state are published. The second is an error answer, a status other than E_SUCCESS and
  no value (msg.len = 2). The status is tested only when msg.len is 6, so this frame goes
  on to the switch with val = 0.0: the position becomes 0 and a second status message and
  joint state are published. An error status in a frame of six bytes is dropped with a
  log line only.
\<close>

theorem short_error_frame_published:
  "read_thread
     [\<lparr>rx_res = 0, rx_id = 0x43, rx_len = 6, rx_status = E_SUCCESS, rx_val = 42, rx_elapsed = 1\<rparr>,
      \<lparr>rx_res = 0, rx_id = 0x43, rx_len = 2, rx_status = E_OTHER 18, rx_val = 0, rx_elapsed = 2\<rparr>]
     reader_start =
   \<lparr>info_position = 0, info_speed = 0, info_f_motor = 0, pub_state = False,
     cnt0 = 2, cnt1 = 0, cnt2 = 0, g_ismoving = False,
     published = [Status_msg 42 0 0, Joint_msg (42 / 2000) 0 0, Status_msg 0 0 0, Joint_msg 0 0 0]\<rparr> \<and>
   read_step
     \<lparr>rx_res = 0, rx_id = 0x43, rx_len = 6, rx_status = E_OTHER 18, rx_val = 0, rx_elapsed = 2\<rparr>
     reader_start =
   \<lparr>info_position = 0, info_speed = 0, info_f_motor = 0, pub_state = False,
     cnt0 = 0, cnt1 = 0, cnt2 = 0, g_ismoving = False,
     published = [Rlog E_response_failure]\<rparr>"
  by (simp add: read_step_def on_response_def publish_status_and_joint_states_def announce_def
      check_rates_def reader_start_def)

text \<open>
  C9. An incremental move whose direction is neither "open" nor "close". As the claim has
  it, the error field of the response is never assigned.

  What holds: nothing is handed to the transport and in_motion keeps its value, in any
  state. The test of in_motion comes first: a request that finds the guard free returns
  true with res.error never assigned, the state unchanged; one that finds the guard taken
  is answered E_ALREADY_RUNNING.
\<close>

theorem bad_direction_ignored:
  assumes "direction req \<noteq> ''open''" "direction req \<noteq> ''close''"
  shows "sent (trace (snd (incrementSrv ar rc cur bgn tks req w))) = sent (trace w) \<and>
         in_motion (snd (incrementSrv ar rc cur bgn tks req w)) = in_motion w \<and>
         (\<not> in_motion w \<longrightarrow> incrementSrv ar rc cur bgn tks req w = (Returned True None, w)) \<and>
         (in_motion w \<longrightarrow> incrementSrv ar rc cur bgn tks req w =
            (Returned True (Some (Status E_ALREADY_RUNNING)), emit (Log W_busy) w))"
  using assms
  by (simp add: incrementSrv_def incrementSrv_with_def next_target_def sent_append)

theorem bad_direction_ignored_witness:
  "incrementSrv exact 0 (Fin 208) 0 [] \<lparr>direction = ''up'', increment = Fin 5\<rparr>
     (startup 210 (\<lambda>_. [])) = (Returned True None, startup 210 (\<lambda>_. []))"
  using bad_direction_ignored [where req = "\<lparr>direction = ''up'', increment = Fin 5\<rparr>"
      and rc = 0 and cur = "Fin 208" and bgn = 0 and tks = "[]" and ar = exact
      and w = "startup 210 (\<lambda>_. [])"]
  by simp

text \<open>
  C9, where the claim fails: the same request made while another command holds the guard
  gets the error field E_ALREADY_RUNNING.
\<close>

theorem bad_direction_busy_counterexample:
  "in_motion (issued 0x21 (startup 210 (\<lambda>_. []))) \<and>
   error_of (fst (incrementSrv exact 0 (Fin 208) 0 [] \<lparr>direction = ''up'', increment = Fin 5\<rparr>
      (issued 0x21 (startup 210 (\<lambda>_. []))))) = Some (Status E_ALREADY_RUNNING)"
  by (simp add: incrementSrv_def incrementSrv_with_def)

text \<open>
  C10. Whatever size is configured, startup goes on; a size other than 110 and 210 is
  replaced by 210 after one warning, so the size used afterwards is 110 or 210.
\<close>

theorem configure_size_effective:
  "g_size (configure_size sz w) \<in> {110, 210} \<and>
   (sz \<notin> {110, 210} \<longrightarrow>
      g_size (configure_size sz w) = 210 \<and>
      trace (configure_size sz w) = trace w @ [Log (W_size sz)]) \<and>
   (sz \<in> {110, 210} \<longrightarrow>
      g_size (configure_size sz w) = sz \<and> trace (configure_size sz w) = trace w)"
  by (simp add: configure_size_def emit_def)

theorem configure_size_effective_witness:
  "g_size (configure_size 150 (initial (\<lambda>_. []))) = 210 \<and>
   trace (configure_size 150 (initial (\<lambda>_. []))) = [Log (W_size 150)] \<and>
   g_size (configure_size 110 (initial (\<lambda>_. []))) = 110"
  using configure_size_effective [of 150 "initial (\<lambda>_. [])"]
    configure_size_effective [of 110 "initial (\<lambda>_. [])"]
  by (simp add: initial_def)

end
